theory Spec2Isabelle
  imports Complex_Main
begin

section \<open>Python values and faults\<close>

text \<open>
  The three decoders (\<^verbatim>\<open>RCget_dcf77.py\<close>, \<^verbatim>\<open>RCget_msf.py\<close>, \<^verbatim>\<open>RCget_jjy.py\<close>) are
  MicroPython scripts. An uncaught exception ends the run, so every operation that can
  raise returns a value of \<open>error + 'a\<close>, with \<open>Inl\<close> for the exception.
  Python's floats are modelled by exact reals: \<open>/\<close> is exact division, \<open>**0.5\<close> is the
  square root, \<open>%\<close> is the floored remainder.
\<close>

datatype error = ZeroDivisionError | ValueError | IndexError | NameError

text \<open>Python's \<^verbatim>\<open>round(x)\<close> with one argument: to the nearest integer, ties to the even one.\<close>

definition py_round :: "real \<Rightarrow> int" where
  "py_round x =
     (let f = \<lfloor>x\<rfloor>; d = x - of_int f
      in if d < 1 / 2 then f else if 1 / 2 < d then f + 1 else if even f then f else f + 1)"

text \<open>Python's \<^verbatim>\<open>x % m\<close> on floats, for a positive \<open>m\<close>: the result has the sign of \<open>m\<close>.\<close>

definition py_fmod :: "real \<Rightarrow> real \<Rightarrow> real" where
  "py_fmod x m = x - m * of_int \<lfloor>x / m\<rfloor>"

section \<open>Statistics utility\<close>

text \<open>\<^verbatim>\<open>def mean(data): return sum(data) / len(data)\<close>\<close>

definition mean :: "real list \<Rightarrow> error + real" where
  "mean data =
     (if length data = 0 then Inl ZeroDivisionError
      else Inr (sum_list data / real (length data)))"

text \<open>\<^verbatim>\<open>max(data)\<close> and \<^verbatim>\<open>min(data)\<close>: a ValueError on the empty list.\<close>

fun py_max :: "real list \<Rightarrow> error + real" where
  "py_max [] = Inl ValueError"
| "py_max (x # xs) = Inr (fold max xs x)"

fun py_min :: "real list \<Rightarrow> error + real" where
  "py_min [] = Inl ValueError"
| "py_min (x # xs) = Inr (fold min xs x)"

text \<open>\<^verbatim>\<open>def mid(data): return (max(data) + min(data))/2\<close>\<close>

definition mid :: "real list \<Rightarrow> error + real" where
  "mid data =
     (case py_max data of Inl e \<Rightarrow> Inl e
      | Inr mx \<Rightarrow> (case py_min data of Inl e \<Rightarrow> Inl e
      | Inr mn \<Rightarrow> Inr ((mx + mn) / 2)))"

text \<open>
  \<^verbatim>\<open>def st_dev(data): return (sum([(x - mean(data))**2 for x in data]) /(len(data)-1))**0.5\<close>

  The comprehension calls \<^verbatim>\<open>mean(data)\<close> once per element, so not at all on the empty
  list: there the sum is 0, the quotient \<^verbatim>\<open>0 / -1\<close> is \<^verbatim>\<open>-0.0\<close> and its power is
  \<^verbatim>\<open>0.0\<close>. With one element the divisor \<^verbatim>\<open>len(data)-1\<close> is zero.
\<close>

definition st_dev :: "real list \<Rightarrow> error + real" where
  "st_dev data =
     (case (if data = [] then Inr 0 else mean data) of Inl e \<Rightarrow> Inl e
      | Inr m \<Rightarrow>
          if int (length data) - 1 = 0 then Inl ZeroDivisionError
          else Inr (sqrt (sum_list (map (\<lambda>x. (x - m)\<^sup>2) data)
                           / of_int (int (length data) - 1))))"

text \<open>
  \<^verbatim>\<open>def del_outlr(data):
      outlier = max(data) if mid(data) > mean(data) else min(data)
      data.remove(outlier)\<close>

  \<^verbatim>\<open>list.remove\<close> deletes the first occurrence; the mutated list is returned.
\<close>

definition del_outlr :: "real list \<Rightarrow> error + real list" where
  "del_outlr data =
     (case mid data of Inl e \<Rightarrow> Inl e
      | Inr md \<Rightarrow> (case mean data of Inl e \<Rightarrow> Inl e
      | Inr m \<Rightarrow> (case (if md > m then py_max data else py_min data) of Inl e \<Rightarrow> Inl e
      | Inr outlier \<Rightarrow>
          if outlier \<in> set data then Inr (remove1 outlier data) else Inl ValueError)))"

lemma fold_max_in: "fold max xs (x::real) \<in> set (x # xs)"
  by (induction xs arbitrary: x) (auto simp: max_def)

lemma fold_min_in: "fold min xs (x::real) \<in> set (x # xs)"
  by (induction xs arbitrary: x) (auto simp: min_def)

lemma py_max_in: "py_max data = Inr v \<Longrightarrow> v \<in> set data"
  using fold_max_in by (cases data) auto

lemma py_min_in: "py_min data = Inr v \<Longrightarrow> v \<in> set data"
  using fold_min_in by (cases data) auto

lemma del_outlr_length:
  "del_outlr data = Inr d \<Longrightarrow> Suc (length d) = length data"
  by (auto simp: del_outlr_def length_remove1 split: sum.splits if_splits)
     (metis length_pos_if_in_set Suc_pred)+

text \<open>
  \<^verbatim>\<open>while st_dev(deltas) > 5 and len(deltas) > 8: del_outlr(deltas)\<close>

  The standard deviation is evaluated first, in every test of the loop.
\<close>

function outlier_loop :: "real list \<Rightarrow> error + real list" where
  "outlier_loop data =
     (case st_dev data of Inl e \<Rightarrow> Inl e
      | Inr s \<Rightarrow>
          if s > 5 \<and> length data > 8
          then (case del_outlr data of Inl e \<Rightarrow> Inl e | Inr d \<Rightarrow> outlier_loop d)
          else Inr data)"
  by pat_completeness auto
termination
  by (relation "measure length") (auto dest: del_outlr_length)

declare outlier_loop.simps [simp del]

text \<open>
  The spec's words for one iteration: drop the maximum when the midpoint exceeds the
  mean, else the minimum (one occurrence of it).
\<close>

definition spec_drop_farthest :: "real list \<Rightarrow> real list" where
  "spec_drop_farthest xs =
     remove1 (if (Max (set xs) + Min (set xs)) / 2 > sum_list xs / real (length xs)
              then Max (set xs) else Min (set xs)) xs"

text \<open>The test of the loop, false where the standard deviation faults.\<close>

definition loop_guard :: "real list \<Rightarrow> bool" where
  "loop_guard xs = ((case st_dev xs of Inl e \<Rightarrow> False | Inr s \<Rightarrow> s > 5) \<and> length xs > 8)"

lemma py_max_Max: "data \<noteq> [] \<Longrightarrow> py_max data = Inr (Max (set data))"
  using Max.set_eq_fold[of "hd data" "tl data"] by (cases data) simp_all

lemma py_min_Min: "data \<noteq> [] \<Longrightarrow> py_min data = Inr (Min (set data))"
  using Min.set_eq_fold[of "hd data" "tl data"] by (cases data) simp_all

lemma del_outlr_spec: "data \<noteq> [] \<Longrightarrow> del_outlr data = Inr (spec_drop_farthest data)"
  by (simp add: del_outlr_def mid_def mean_def py_max_Max py_min_Min spec_drop_farthest_def)

lemma st_dev_ok: "2 \<le> length data \<Longrightarrow> \<exists>s. st_dev data = Inr s"
  by (auto simp: st_dev_def mean_def)

lemma loop_general:
  "2 \<le> length data \<Longrightarrow>
   \<exists>n. outlier_loop data = Inr ((spec_drop_farthest ^^ n) data)
     \<and> length ((spec_drop_farthest ^^ n) data) + n = length data
     \<and> (\<forall>k<n. loop_guard ((spec_drop_farthest ^^ k) data))
     \<and> \<not> loop_guard ((spec_drop_farthest ^^ n) data)"
proof (induction data rule: outlier_loop.induct)
  case (1 data)
  obtain s where s: "st_dev data = Inr s" using st_dev_ok[OF "1.prems"] by blast
  show ?case
  proof (cases "s > 5 \<and> length data > 8")
    case False
    then have "outlier_loop data = Inr data" "\<not> loop_guard data"
      using s by (auto simp: loop_guard_def outlier_loop.simps[of data])
    then show ?thesis by (intro exI[of _ 0]) simp
  next
    case True
    then have ne: "data \<noteq> []" by auto
    let ?d = "spec_drop_farthest data"
    have d: "del_outlr data = Inr ?d" by (rule del_outlr_spec[OF ne])
    have len: "Suc (length ?d) = length data" by (rule del_outlr_length[OF d])
    with True have "2 \<le> length ?d" by simp
    from "1.IH"[OF s True d this] obtain n where n:
      "outlier_loop ?d = Inr ((spec_drop_farthest ^^ n) ?d)"
      "length ((spec_drop_farthest ^^ n) ?d) + n = length ?d"
      "\<forall>k<n. loop_guard ((spec_drop_farthest ^^ k) ?d)"
      "\<not> loop_guard ((spec_drop_farthest ^^ n) ?d)" by blast
    have g: "loop_guard data" using True s by (simp add: loop_guard_def)
    have step: "outlier_loop data = outlier_loop ?d"
      using s True d by (subst outlier_loop.simps) simp
    have all: "\<forall>k<Suc n. loop_guard ((spec_drop_farthest ^^ k) data)"
    proof (intro allI impI)
      fix k assume "k < Suc n"
      then show "loop_guard ((spec_drop_farthest ^^ k) data)"
        using g n(3) by (cases k) (simp_all add: funpow_swap1)
    qed
    show ?thesis
      using n(1,2,4) step len all
      by (intro exI[of _ "Suc n"]) (simp add: funpow_swap1)
  qed
qed

section \<open>Phase estimator\<close>

text \<open>
  \<^verbatim>\<open>get_deltas(secs)\<close> polls the timestamp the edge interrupt leaves in \<^verbatim>\<open>delta[0]\<close>
  until \<^verbatim>\<open>secs * 2\<close> edges were taken or \<^verbatim>\<open>secs - 1\<close> seconds have passed, and appends
  \<^verbatim>\<open>delta[0]%1000\<close> to \<^verbatim>\<open>deltas\<close> and \<^verbatim>\<open>(delta[0]+500)%1000\<close> to \<^verbatim>\<open>shifts\<close>.
  The argument \<open>edges\<close> is the sequence of timestamps the poll sees before the time is up.
\<close>

definition get_deltas ::
  "nat \<Rightarrow> int list \<Rightarrow> real list \<times> real list \<Rightarrow> real list \<times> real list" where
  "get_deltas secs edges ds =
     (let taken = take (secs * 2) edges
      in (fst ds @ map (\<lambda>t. of_int (t mod 1000)) taken,
          snd ds @ map (\<lambda>t. of_int ((t + 500) mod 1000)) taken))"

text \<open>\<^verbatim>\<open>delta_t = round((mean(deltas) - shift)%1000)\<close>\<close>

definition final_delta_t :: "real list \<Rightarrow> real \<Rightarrow> error + int" where
  "final_delta_t deltas shift =
     (case mean deltas of Inl e \<Rightarrow> Inl e
      | Inr m \<Rightarrow> Inr (py_round (py_fmod (m - shift) 1000)))"

text \<open>
  The block under \<^verbatim>\<open>if not abort:\<close>: both sets are filtered, the longer one is chosen
  (\<^verbatim>\<open>shifts\<close> only when strictly longer), sorted, and averaged.
\<close>

definition estimate_phase :: "real list \<Rightarrow> real list \<Rightarrow> error + int" where
  "estimate_phase deltas shifts =
     (case outlier_loop deltas of Inl e \<Rightarrow> Inl e
      | Inr deltas' \<Rightarrow> (case outlier_loop shifts of Inl e \<Rightarrow> Inl e
      | Inr shifts' \<Rightarrow>
          if length deltas' < length shifts'
          then final_delta_t (sort shifts') 500
          else final_delta_t (sort deltas') 0))"

text \<open>
  The measurement: a window of 16 seconds; all 32 slots taken is noise and aborts
  (\<open>None\<close>); more than \<^verbatim>\<open>period * 1.25\<close> edges adds a window of 48 seconds to the same
  lists.
\<close>

definition phase_acquire :: "int list \<Rightarrow> int list \<Rightarrow> error + int option" where
  "phase_acquire edges1 edges2 =
     (let ds = get_deltas 16 edges1 ([], [])
      in if length (fst ds) = 16 * 2 then Inr None
         else
           let ds' = (if real (length (fst ds)) > 16 * 1.25
                      then get_deltas (64 - 16) edges2 ds else ds)
           in (case estimate_phase (fst ds') (snd ds') of Inl e \<Rightarrow> Inl e
               | Inr d \<Rightarrow> Inr (Some d)))"

lemma sqrt_gt_5: "(5 < sqrt x) = (25 < x)"
proof -
  have "sqrt 25 = 5" using real_sqrt_abs[of 5] by simp
  then show ?thesis using real_sqrt_less_iff[of 25 x] by simp
qed

lemma outlier_loop_ok:
  "2 \<le> length data \<Longrightarrow> \<exists>out. outlier_loop data = Inr out \<and> 2 \<le> length out"
proof (induction data rule: outlier_loop.induct)
  case (1 data)
  obtain s where s: "st_dev data = Inr s" using st_dev_ok[OF "1.prems"] by blast
  show ?case
  proof (cases "s > 5 \<and> length data > 8")
    case False
    then show ?thesis using s "1.prems" by (auto simp: outlier_loop.simps[of data])
  next
    case True
    then have d: "del_outlr data = Inr (spec_drop_farthest data)"
      by (intro del_outlr_spec) auto
    have "2 \<le> length (spec_drop_farthest data)"
      using del_outlr_length[OF d] True by simp
    from "1.IH"[OF s True d this] show ?thesis
      using s True d by (subst outlier_loop.simps) simp
  qed
qed

lemma final_delta_t_ok: "data \<noteq> [] \<Longrightarrow> \<exists>d. final_delta_t (sort data) shift = Inr d"
  by (simp add: final_delta_t_def mean_def)

lemma estimate_phase_ok:
  assumes "2 \<le> length deltas" "2 \<le> length shifts"
  shows "\<exists>d. estimate_phase deltas shifts = Inr d"
proof -
  obtain d' where d': "outlier_loop deltas = Inr d'" "2 \<le> length d'"
    using outlier_loop_ok[OF assms(1)] by blast
  obtain s' where s': "outlier_loop shifts = Inr s'" "2 \<le> length s'"
    using outlier_loop_ok[OF assms(2)] by blast
  have "d' \<noteq> []" "s' \<noteq> []" using d'(2) s'(2) by auto
  then show ?thesis
    using d'(1) s'(1) final_delta_t_ok[of d' 0] final_delta_t_ok[of s' 500]
    by (auto simp: estimate_phase_def)
qed

lemma outlier_loop_Nil: "outlier_loop [] = Inr []"
  by (subst outlier_loop.simps) (simp add: st_dev_def)

lemma outlier_loop_single: "outlier_loop [x] = Inl ZeroDivisionError"
  by (subst outlier_loop.simps) (simp add: st_dev_def mean_def)

lemma estimate_phase_short:
  assumes "length deltas < 2" "length shifts = length deltas"
  shows "estimate_phase deltas shifts = Inl ZeroDivisionError"
proof (cases deltas)
  case Nil
  then show ?thesis using assms(2)
    by (simp add: estimate_phase_def outlier_loop_Nil final_delta_t_def mean_def)
next
  case (Cons x xs)
  then have "deltas = [x]" using assms(1) by simp
  then show ?thesis by (simp add: estimate_phase_def outlier_loop_single)
qed

lemma get_deltas_lengths:
  "length (fst ds) = length (snd ds) \<Longrightarrow>
   length (fst (get_deltas secs edges ds)) = length (fst ds) + min (length edges) (secs * 2)
   \<and> length (snd (get_deltas secs edges ds)) = length (fst ds) + min (length edges) (secs * 2)"
  by (simp add: get_deltas_def Let_def)

text \<open>
  Claim C9. The statistics stage is well defined only when the collection loop returned
  at least two edge timestamps: with none or one, the run ends in a ZeroDivisionError
  (raised by \<^verbatim>\<open>mean\<close> on the empty list, by \<^verbatim>\<open>st_dev\<close> on a single value) and
  never reports a result; with two or more, the stage returns (an offset, or the noise
  abort).
\<close>
theorem phase_acquire_needs_two_edges:
  "(length edges1 < 2 \<longrightarrow> phase_acquire edges1 edges2 = Inl ZeroDivisionError)
   \<and> (2 \<le> length edges1 \<longrightarrow> (\<exists>r. phase_acquire edges1 edges2 = Inr r))"
proof (intro conjI impI)
  assume short: "length edges1 < 2"
  have l: "length (fst (get_deltas 16 edges1 ([], []))) = length edges1"
          "length (snd (get_deltas 16 edges1 ([], []))) = length edges1"
    using short get_deltas_lengths[of "([], [])" 16 edges1] by simp_all
  show "phase_acquire edges1 edges2 = Inl ZeroDivisionError"
    using short l estimate_phase_short[of "fst (get_deltas 16 edges1 ([], []))"
        "snd (get_deltas 16 edges1 ([], []))"]
    by (simp add: phase_acquire_def Let_def)
next
  assume long: "2 \<le> length edges1"
  let ?ds = "get_deltas 16 edges1 ([], [])"
  have l: "length (fst ?ds) = min (length edges1) 32" "length (snd ?ds) = min (length edges1) 32"
    using get_deltas_lengths[of "([], [])" 16 edges1] by simp_all
  let ?ds' = "get_deltas (64 - 16) edges2 ?ds"
  have l': "length (fst ?ds') = length (fst ?ds) + min (length edges2) 96"
           "length (snd ?ds') = length (fst ?ds) + min (length edges2) 96"
    using get_deltas_lengths[of ?ds 48 edges2] l by simp_all
  have a: "\<exists>d. estimate_phase (fst ?ds) (snd ?ds) = Inr d"
    using l long by (intro estimate_phase_ok) simp_all
  have b: "\<exists>d. estimate_phase (fst ?ds') (snd ?ds') = Inr d"
    using l l' long by (intro estimate_phase_ok) simp_all
  show "\<exists>r. phase_acquire edges1 edges2 = Inr r"
    using a b by (auto simp: phase_acquire_def Let_def)
qed

theorem phase_acquire_needs_two_edges_witness:
  "(length [5003::int] < 2 \<and> phase_acquire [5003] [] = Inl ZeroDivisionError)
   \<and> (2 \<le> length [5003::int, 6004] \<and> (\<exists>r. phase_acquire [5003, 6004] [] = Inr r))"
  using phase_acquire_needs_two_edges[of "[5003]" "[]"]
        phase_acquire_needs_two_edges[of "[5003, 6004]" "[]"]
  by simp

text \<open>
  Claim C7. On a list of more than 8 numbers whose standard deviation exceeds 5 the
  removal loop terminates after \<open>n > 0\<close> iterations; each iteration is one call of
  \<^verbatim>\<open>del_outlr\<close>, which drops the maximum when the midpoint exceeds the mean and else the
  minimum and so shortens the list by exactly one element; on exit the standard
  deviation is at most 5 or at most 8 values remain.
\<close>
theorem outlier_loop_terminates:
  assumes "8 < length data" and "st_dev data = Inr s" and "5 < s"
  shows "\<exists>n out. 0 < n \<and> outlier_loop data = Inr out
           \<and> out = (spec_drop_farthest ^^ n) data
           \<and> length out + n = length data
           \<and> (\<forall>k<n. del_outlr ((spec_drop_farthest ^^ k) data)
                         = Inr ((spec_drop_farthest ^^ Suc k) data)
                    \<and> Suc (length ((spec_drop_farthest ^^ Suc k) data))
                         = length ((spec_drop_farthest ^^ k) data))
           \<and> (\<exists>s'. st_dev out = Inr s' \<and> (s' \<le> 5 \<or> length out \<le> 8))"
proof -
  from assms(1) have "2 \<le> length data" by simp
  from loop_general[OF this] obtain n where n:
    "outlier_loop data = Inr ((spec_drop_farthest ^^ n) data)"
    "length ((spec_drop_farthest ^^ n) data) + n = length data"
    "\<forall>k<n. loop_guard ((spec_drop_farthest ^^ k) data)"
    "\<not> loop_guard ((spec_drop_farthest ^^ n) data)" by blast
  let ?out = "(spec_drop_farthest ^^ n) data"
  have g0: "loop_guard data" using assms by (simp add: loop_guard_def)
  have pos: "0 < n" using g0 n(4) by (cases n) auto
  have iter: "\<forall>k<n. del_outlr ((spec_drop_farthest ^^ k) data)
                         = Inr ((spec_drop_farthest ^^ Suc k) data)
                    \<and> Suc (length ((spec_drop_farthest ^^ Suc k) data))
                         = length ((spec_drop_farthest ^^ k) data)"
  proof (intro allI impI)
    fix k assume "k < n"
    with n(3) have "loop_guard ((spec_drop_farthest ^^ k) data)" by blast
    then have "(spec_drop_farthest ^^ k) data \<noteq> []" by (auto simp: loop_guard_def)
    from del_outlr_spec[OF this]
    have d: "del_outlr ((spec_drop_farthest ^^ k) data) = Inr ((spec_drop_farthest ^^ Suc k) data)"
      by simp
    from del_outlr_length[OF d] d
    show "del_outlr ((spec_drop_farthest ^^ k) data)
                         = Inr ((spec_drop_farthest ^^ Suc k) data)
                    \<and> Suc (length ((spec_drop_farthest ^^ Suc k) data))
                         = length ((spec_drop_farthest ^^ k) data)" by simp
  qed
  have "n - 1 < n" using pos by simp
  with n(3) have "loop_guard ((spec_drop_farthest ^^ (n - 1)) data)" by blast
  then have "8 < length ((spec_drop_farthest ^^ (n - 1)) data)" by (simp add: loop_guard_def)
  moreover have "Suc (length ((spec_drop_farthest ^^ Suc (n - 1)) data))
                  = length ((spec_drop_farthest ^^ (n - 1)) data)"
    using iter \<open>n - 1 < n\<close> by blast
  ultimately have "2 \<le> length ?out" using pos by simp
  from st_dev_ok[OF this] obtain s' where s': "st_dev ?out = Inr s'" by blast
  with n(4) have "s' \<le> 5 \<or> length ?out \<le> 8" by (auto simp: loop_guard_def)
  with s' pos n(1,2) iter show ?thesis by blast
qed

theorem outlier_loop_terminates_witness:
  "8 < length [0, 0, 0, 0, 0, 0, 0, 0, 0, 100 :: real]
   \<and> st_dev [0, 0, 0, 0, 0, 0, 0, 0, 0, 100] = Inr (sqrt 1000) \<and> 5 < sqrt 1000
   \<and> (\<exists>(n::nat) out. 0 < n \<and> outlier_loop [0, 0, 0, 0, 0, 0, 0, 0, 0, 100] = Inr out
         \<and> (\<exists>s'. st_dev out = Inr s' \<and> (s' \<le> 5 \<or> length out \<le> 8)))"
proof -
  let ?D = "[0, 0, 0, 0, 0, 0, 0, 0, 0, 100 :: real]"
  have h1: "8 < length ?D" by simp
  have h2: "st_dev ?D = Inr (sqrt 1000)" by (simp add: st_dev_def mean_def)
  have h3: "5 < sqrt 1000" by (simp add: sqrt_gt_5)
  from outlier_loop_terminates[OF h1 h2 h3] obtain n :: nat and out where
    "0 < n" "outlier_loop ?D = Inr out"
    "\<exists>s'. st_dev out = Inr s' \<and> (s' \<le> 5 \<or> length out \<le> 8)" by blast
  with h1 h2 h3 show ?thesis by blast
qed

text \<open>
  Claim C3. The offset is \<^verbatim>\<open>round((mean(deltas) - shift)%1000)\<close>: the remainder is taken
  before rounding, so a mean of the shifted set in \<open>[499.5, 500)\<close> gives 1000, outside
  \<open>0..999\<close>, where rounding first and reducing modulo 1000 afterwards gives 0. Ten edges,
  four at \<open>...999\<close> ms and six at \<open>...000\<close> ms: the unshifted set is cut to 8 values, the
  shifted set (mean 499.6) keeps its 10 and is chosen, and the result is 1000.
\<close>

theorem phase_acquire_yields_1000:
  "phase_acquire [5999, 6999, 7999, 8999, 10000, 11000, 12000, 13000, 14000, 15000] []
     = Inr (Some 1000)
   \<and> py_round (4996 / 10 - 500) mod 1000 = 0"
  apply (rule conjI)
   prefer 2 apply (simp add: py_round_def Let_def)
  apply (simp add: phase_acquire_def get_deltas_def Let_def estimate_phase_def)
  apply (subst outlier_loop.simps, simp add: st_dev_def mean_def sqrt_gt_5 del_outlr_def mid_def power2_eq_square)+
  apply (simp add: final_delta_t_def mean_def py_fmod_def py_round_def Let_def)
  done

section \<open>JJY: day of year to month and day\<close>

text \<open>
  \<^verbatim>\<open>if year%4 != 0:
      month_doys = 0,31,59,90,120,151,181,212,243,273,304,334,365
  else:
      month_doys = 0,31,60,91,121,152,182,213,244,274,305,335,366\<close>
\<close>

definition month_doys :: "int \<Rightarrow> int list" where
  "month_doys year =
     (if year mod 4 \<noteq> 0
      then [0, 31, 59, 90, 120, 151, 181, 212, 243, 273, 304, 334, 365]
      else [0, 31, 60, 91, 121, 152, 182, 213, 244, 274, 305, 335, 366])"

text \<open>
  \<^verbatim>\<open>while month_doys[month] < doy:
      day = doy-month_doys[month]
      month +=1\<close>

  Indexing the tuple past its end raises IndexError.
\<close>

function doy_loop :: "int list \<Rightarrow> nat \<Rightarrow> int \<Rightarrow> int \<Rightarrow> error + (nat \<times> int)" where
  "doy_loop tbl month day doy =
     (if length tbl \<le> month then Inl IndexError
      else if tbl ! month < doy then doy_loop tbl (month + 1) (doy - tbl ! month) doy
      else Inr (month, day))"
  by pat_completeness auto
termination
  by (relation "measure (\<lambda>(tbl, month, day, doy). length tbl - month)") auto

declare doy_loop.simps [simp del]

text \<open>\<^verbatim>\<open>month, day = 1, doy\<close>, then the loop.\<close>

definition doy_to_date :: "int \<Rightarrow> int \<Rightarrow> error + (nat \<times> int)" where
  "doy_to_date year doy = doy_loop (month_doys year) 1 doy doy"

text \<open>The Gregorian calendar, independently of the tables.\<close>

definition leap_year :: "int \<Rightarrow> bool" where
  "leap_year y = (y mod 4 = 0 \<and> (y mod 100 \<noteq> 0 \<or> y mod 400 = 0))"

definition days_in_month :: "int \<Rightarrow> nat \<Rightarrow> int" where
  "days_in_month y m =
     (if m = 2 then (if leap_year y then 29 else 28)
      else if m = 4 \<or> m = 6 \<or> m = 9 \<or> m = 11 then 30 else 31)"

definition valid_date :: "int \<Rightarrow> nat \<Rightarrow> int \<Rightarrow> bool" where
  "valid_date y m d = (1 \<le> m \<and> m \<le> 12 \<and> 1 \<le> d \<and> d \<le> days_in_month y m)"

definition ordinal_day :: "int \<Rightarrow> nat \<Rightarrow> int \<Rightarrow> int" where
  "ordinal_day y m d = sum_list (map (days_in_month y) [1..<m]) + d"

lemma leap_in_range:
  assumes "2024 \<le> y" "y \<le> 2099"
  shows "leap_year y = (y mod 4 = 0)"
proof -
  have "y mod 100 = ((y - 2000) + 20 * 100) mod 100" by simp
  also have "\<dots> = (y - 2000) mod 100" by (rule mod_mult_self1)
  also have "\<dots> = y - 2000" using assms by simp
  finally have "y mod 100 \<noteq> 0" using assms by simp
  then show ?thesis by (simp add: leap_year_def)
qed

lemma month_cases:
  "1 \<le> (m::nat) \<Longrightarrow> m \<le> 12 \<Longrightarrow>
   m = 1 \<or> m = 2 \<or> m = 3 \<or> m = 4 \<or> m = 5 \<or> m = 6 \<or> m = 7 \<or> m = 8 \<or> m = 9 \<or> m = 10
   \<or> m = 11 \<or> m = 12"
  by arith

lemma cumulative_days:
  assumes "2024 \<le> y" "y \<le> 2099" "1 \<le> m" "m \<le> 12"
  shows "sum_list (map (days_in_month y) [1..<m]) = month_doys y ! (m - 1)
       \<and> month_doys y ! m = month_doys y ! (m - 1) + days_in_month y m"
  using month_cases[OF assms(3,4)] leap_in_range[OF assms(1,2)]
  by (elim disjE) (simp_all add: days_in_month_def month_doys_def upt_rec)

lemma valid_date_interval:
  assumes "2024 \<le> y" "y \<le> 2099" "valid_date y m d"
  shows "month_doys y ! (m - 1) < ordinal_day y m d \<and> ordinal_day y m d \<le> month_doys y ! m
         \<and> d = ordinal_day y m d - month_doys y ! (m - 1)"
  using assms cumulative_days[of y m] by (simp add: valid_date_def ordinal_day_def)

lemma sorted_month_doys: "sorted (month_doys y)" "length (month_doys y) = 13"
  by (simp_all add: month_doys_def)

lemma interval_unique:
  assumes "1 \<le> m" "m \<le> 12" "1 \<le> m'" "m' \<le> 12"
    and "month_doys y ! (m - 1) < doy" "doy \<le> month_doys y ! m"
    and "month_doys y ! (m' - 1) < doy" "doy \<le> month_doys y ! m'"
  shows "m = m'"
proof (rule ccontr)
  assume "m \<noteq> m'"
  then consider "m \<le> m' - 1" | "m' \<le> m - 1" using assms(1,3) by linarith
  then show False
  proof cases
    case 1
    then have "month_doys y ! m \<le> month_doys y ! (m' - 1)"
      using sorted_nth_mono[OF sorted_month_doys(1), of m "m' - 1" y] assms(4)
      by (simp add: sorted_month_doys(2))
    with assms(6,7) show False by linarith
  next
    case 2
    then have "month_doys y ! m' \<le> month_doys y ! (m - 1)"
      using sorted_nth_mono[OF sorted_month_doys(1), of m' "m - 1" y] assms(2)
      by (simp add: sorted_month_doys(2))
    with assms(5,8) show False by linarith
  qed
qed

lemma doy_loop_scan:
  assumes "month < length tbl" "doy \<le> last tbl"
  shows "\<exists>m. month \<le> m \<and> m < length tbl
             \<and> doy_loop tbl month day doy
                   = Inr (m, if m = month then day else doy - tbl ! (m - 1))
             \<and> doy \<le> tbl ! m \<and> (\<forall>k. month \<le> k \<and> k < m \<longrightarrow> tbl ! k < doy)"
  using assms
proof (induction tbl month day doy rule: doy_loop.induct)
  case (1 tbl month day doy)
  show ?case
  proof (cases "tbl ! month < doy")
    case False
    then show ?thesis using "1.prems"(1)
      by (intro exI[of _ month]) (simp add: doy_loop.simps[of tbl month])
  next
    case True
    have ne: "tbl \<noteq> []" using "1.prems"(1) by auto
    have "month \<noteq> length tbl - 1"
      using True "1.prems"(2) by (auto simp: last_conv_nth[OF ne])
    then have lt: "month + 1 < length tbl" using "1.prems"(1) by simp
    have nle: "\<not> length tbl \<le> month" using "1.prems"(1) by simp
    from "1.IH"[OF nle True lt "1.prems"(2)] obtain m where m:
      "month + 1 \<le> m" "m < length tbl"
      "doy_loop tbl (month + 1) (doy - tbl ! month) doy
         = Inr (m, if m = month + 1 then doy - tbl ! month else doy - tbl ! (m - 1))"
      "doy \<le> tbl ! m" "\<forall>k. month + 1 \<le> k \<and> k < m \<longrightarrow> tbl ! k < doy"
      by blast
    have r: "doy_loop tbl month day doy = Inr (m, doy - tbl ! (m - 1))"
      using True nle m(3) by (subst doy_loop.simps) auto
    have a: "\<forall>k. month \<le> k \<and> k < m \<longrightarrow> tbl ! k < doy"
    proof (intro allI impI)
      fix k assume "month \<le> k \<and> k < m"
      then show "tbl ! k < doy" using True m(5) by (cases "k = month") auto
    qed
    show ?thesis using m(1,2,4) r a by (intro exI[of _ m]) auto
  qed
qed

lemma doy_loop_finds:
  assumes "1 \<le> doy" "doy \<le> month_doys year ! 12"
  shows "\<exists>m. doy_to_date year doy = Inr (m, doy - month_doys year ! (m - 1))
             \<and> 1 \<le> m \<and> m \<le> 12
             \<and> month_doys year ! (m - 1) < doy \<and> doy \<le> month_doys year ! m"
proof -
  have l: "last (month_doys year) = month_doys year ! 12" "month_doys year ! 0 = 0"
    by (simp_all add: month_doys_def)
  from doy_loop_scan[of 1 "month_doys year" doy doy] assms(2) l(1)
  obtain m where m: "1 \<le> m" "m < 13"
    "doy_to_date year doy = Inr (m, if m = 1 then doy else doy - month_doys year ! (m - 1))"
    "doy \<le> month_doys year ! m" "\<forall>k. 1 \<le> k \<and> k < m \<longrightarrow> month_doys year ! k < doy"
    by (auto simp: sorted_month_doys(2) doy_to_date_def)
  have "month_doys year ! (m - 1) < doy"
  proof (cases "m = 1")
    case True then show ?thesis using l(2) assms(1) by simp
  next
    case False then show ?thesis using m(1,5) by auto
  qed
  moreover have "doy_to_date year doy = Inr (m, doy - month_doys year ! (m - 1))"
    using m(3) l(2) by (cases "m = 1") auto
  ultimately show ?thesis using m(1,2,4) by (intro exI[of _ m]) auto
qed

text \<open>
  Claim C10. For an accepted year (2024 to 2099) and a day of year from 1 to 365 (366
  when the year is divisible by 4) the JJY conversion loop terminates without a fault
  and returns a valid Gregorian month and day whose ordinal number in that year is the
  given day of year; no other valid date of the year has that ordinal number.
\<close>
theorem jjy_doy_to_date_correct:
  assumes "2024 \<le> year" "year \<le> 2099"
    and "1 \<le> doy" "doy \<le> (if year mod 4 = 0 then 366 else 365)"
  shows "\<exists>m d. doy_to_date year doy = Inr (m, d)
           \<and> valid_date year m d \<and> ordinal_day year m d = doy
           \<and> (\<forall>m' d'. valid_date year m' d' \<and> ordinal_day year m' d' = doy
                  \<longrightarrow> m' = m \<and> d' = d)"
proof -
  have top: "doy \<le> month_doys year ! 12"
    using assms(4) by (auto simp: month_doys_def split: if_splits)
  from doy_loop_finds[OF assms(3) top] obtain m where m:
    "doy_to_date year doy = Inr (m, doy - month_doys year ! (m - 1))"
    "1 \<le> m" "m \<le> 12" "month_doys year ! (m - 1) < doy" "doy \<le> month_doys year ! m"
    by blast
  let ?d = "doy - month_doys year ! (m - 1)"
  note c = cumulative_days[OF assms(1,2) m(2,3)]
  have v: "valid_date year m ?d" using m c by (simp add: valid_date_def)
  have o: "ordinal_day year m ?d = doy" using c by (simp add: ordinal_day_def)
  have u: "\<forall>m' d'. valid_date year m' d' \<and> ordinal_day year m' d' = doy
                  \<longrightarrow> m' = m \<and> d' = ?d"
  proof (intro allI impI)
    fix m' d' assume a: "valid_date year m' d' \<and> ordinal_day year m' d' = doy"
    then have i: "month_doys year ! (m' - 1) < doy" "doy \<le> month_doys year ! m'"
      "d' = doy - month_doys year ! (m' - 1)"
      using valid_date_interval[OF assms(1,2), of m' d'] by auto
    have "m' = m"
      using interval_unique[of m' m year doy] a i m by (simp add: valid_date_def)
    with i(3) show "m' = m \<and> d' = ?d" by simp
  qed
  from m(1) v o u show ?thesis by blast
qed

theorem jjy_doy_to_date_correct_witness:
  "(2024::int) \<le> 2024 \<and> (2024::int) \<le> 2099 \<and> (1::int) \<le> 60
   \<and> (60::int) \<le> (if (2024::int) mod 4 = 0 then 366 else 365)
   \<and> doy_to_date 2024 60 = Inr (2, 29) \<and> valid_date 2024 2 29
   \<and> ordinal_day 2024 2 29 = 60"
proof -
  have d: "doy_to_date 2024 60 = Inr (2, 29)"
    by (simp add: doy_to_date_def month_doys_def doy_loop.simps)
  have "\<exists>m d. doy_to_date 2024 60 = Inr (m, d)
           \<and> valid_date 2024 m d \<and> ordinal_day 2024 m d = 60
           \<and> (\<forall>m' d'. valid_date 2024 m' d' \<and> ordinal_day 2024 m' d' = 60
                  \<longrightarrow> m' = m \<and> d' = d)"
    by (rule jjy_doy_to_date_correct) simp_all
  with d show ?thesis by auto
qed

section \<open>Python strings, lists and integers\<close>

text \<open>Sequencing of operations that may raise: the first exception ends the computation.\<close>

definition err_bind :: "error + 'a \<Rightarrow> ('a \<Rightarrow> error + 'b) \<Rightarrow> error + 'b" where
  "err_bind r f = (case r of Inl e \<Rightarrow> Inl e | Inr v \<Rightarrow> f v)"

text \<open>\<^verbatim>\<open>xs[i]\<close>: a negative index counts from the end; out of range raises IndexError.\<close>

definition py_index :: "'a list \<Rightarrow> int \<Rightarrow> error + 'a" where
  "py_index xs i =
     (let n = int (length xs); k = (if i < 0 then i + n else i)
      in if 0 \<le> k \<and> k < n then Inr (xs ! nat k) else Inl IndexError)"

text \<open>
  A slice bound: negative bounds count from the end, and every bound is clamped to the
  list. \<^verbatim>\<open>xs[i:j]\<close> and \<^verbatim>\<open>xs[i:]\<close> never raise.
\<close>

definition slice_bound :: "nat \<Rightarrow> int \<Rightarrow> nat" where
  "slice_bound n i = nat (min (int n) (max 0 (if i < 0 then i + int n else i)))"

definition py_slice :: "'a list \<Rightarrow> int \<Rightarrow> int \<Rightarrow> 'a list" where
  "py_slice xs i j =
     take (slice_bound (length xs) j - slice_bound (length xs) i)
          (drop (slice_bound (length xs) i) xs)"

definition py_from :: "'a list \<Rightarrow> int \<Rightarrow> 'a list" where
  "py_from xs i = drop (slice_bound (length xs) i) xs"

text \<open>\<^verbatim>\<open>s.endswith(p)\<close>\<close>

definition endswith :: "string \<Rightarrow> string \<Rightarrow> bool" where
  "endswith s p = (length p \<le> length s \<and> drop (length s - length p) s = p)"

text \<open>\<^verbatim>\<open>s.count('1')\<close>, the number of ones of a string.\<close>

definition count_ones :: "string \<Rightarrow> nat" where
  "count_ones s = count_list s (CHR ''1'')"

text \<open>
  \<^verbatim>\<open>int(s, base)\<close> on the strings the decoders build, which hold blanks and decimal
  digits only: blanks around the number are stripped, and an empty rest or a character
  that is not a digit of the base raises ValueError.
\<close>

definition digit_of :: "char \<Rightarrow> nat option" where
  "digit_of c =
     (let k = (of_char c :: nat) in if 48 \<le> k \<and> k \<le> 57 then Some (k - 48) else None)"

fun parse_digits :: "nat \<Rightarrow> int \<Rightarrow> string \<Rightarrow> error + int" where
  "parse_digits base acc [] = Inr acc"
| "parse_digits base acc (c # cs) =
     (case digit_of c of
        None \<Rightarrow> Inl ValueError
      | Some k \<Rightarrow> if k < base then parse_digits base (acc * int base + int k) cs
                  else Inl ValueError)"

definition strip :: "string \<Rightarrow> string" where
  "strip s = rev (dropWhile (\<lambda>c. c = CHR '' '') (rev (dropWhile (\<lambda>c. c = CHR '' '') s)))"

definition py_int :: "string \<Rightarrow> nat \<Rightarrow> error + int" where
  "py_int s base = (if strip s = [] then Inl ValueError else parse_digits base 0 (strip s))"

text \<open>\<^verbatim>\<open>str(n)\<close> of an integer, in decimal.\<close>

fun str_nat :: "nat \<Rightarrow> string" where
  "str_nat n =
     (if n < 10 then [''0123456789'' ! n]
      else str_nat (n div 10) @ [''0123456789'' ! (n mod 10)])"

declare str_nat.simps [simp del]

definition py_str :: "int \<Rightarrow> string" where
  "py_str i = (if i < 0 then CHR ''-'' # str_nat (nat (- i)) else str_nat (nat i))"

text \<open>
  The reduction of one sampling window, \<^verbatim>\<open>str(round(mean(samples[lo:hi])))\<close>; the
  samples are the values of \<^verbatim>\<open>rc_signal.value()\<close> stored in a byte array.
\<close>

definition classify :: "nat list \<Rightarrow> int \<Rightarrow> int \<Rightarrow> error + string" where
  "classify samples lo hi =
     err_bind (mean (map real (py_slice samples lo hi))) (\<lambda>m. Inr (py_str (py_round m)))"

text \<open>\<^verbatim>\<open>len(set(xs))\<close>, \<^verbatim>\<open>all(match)\<close>, \<^verbatim>\<open>match[i]\<close> and \<^verbatim>\<open>match[i] = True\<close>.\<close>

definition len_set :: "int list \<Rightarrow> nat" where
  "len_set xs = length (remdups xs)"

definition py_all :: "bool list \<Rightarrow> bool" where
  "py_all bs = list_all (\<lambda>b. b) bs"

definition set_item :: "'a list \<Rightarrow> nat \<Rightarrow> 'a \<Rightarrow> error + 'a list" where
  "set_item xs i v = (if i < length xs then Inr (xs[i := v]) else Inl IndexError)"

text \<open>
  \<^verbatim>\<open>time.mktime\<close> of the MicroPython library, which is not part of the repository: the
  seconds from the epoch to a broken-down time with the month in 1 to 12. It is linear
  in the day, hour and minute, so an hour of -1 is the hour before midnight. The count
  of days is that of the proleptic Gregorian calendar; the epoch (here 1970-01-01)
  cancels in every use the decoders make of it.
\<close>

definition days_from_civil :: "int \<Rightarrow> int \<Rightarrow> int \<Rightarrow> int" where
  "days_from_civil y m d =
     (let y' = (if m \<le> 2 then y - 1 else y);
          era = y' div 400;
          yoe = y' - era * 400;
          mp = (m + 9) mod 12;
          doy = (153 * mp + 2) div 5 + d - 1;
          doe = yoe * 365 + yoe div 4 - yoe div 100 + doy
      in era * 146097 + doe - 719468)"

definition mktime :: "int \<Rightarrow> int \<Rightarrow> int \<Rightarrow> int \<Rightarrow> int \<Rightarrow> int" where
  "mktime y m d h mi = days_from_civil y m d * 86400 + h * 3600 + mi * 60"

section \<open>The state of a decode loop\<close>

text \<open>
  The variables of the decode loops. Those every script has: the shift registers, the
  seconds counter, the match flags, the histories of year and minute of day, and the
  variables that are bound only once a value was decoded or matched (\<open>None\<close> while
  unbound: reading one raises NameError).
\<close>

record rc_state =
  tcA :: string
  tcB :: string
  elapsed :: int
  match :: "bool list"
  yrs :: "int list"
  mods :: "int list"
  year :: "int option"
  yr :: "int option"
  dy :: "int option"
  hr :: "int option"
  mn :: "int option"
  modv :: "int option"

text \<open>MSF and DCF77 decode month and day; DCF77 also the summer time flag.\<close>

record date_state = rc_state +
  mons :: "int list"
  dys :: "int list"
  month :: "int option"
  day :: "int option"
  mon :: "int option"

record dcf_state = date_state +
  dsts :: "int list"
  dst :: "int option"
  ds :: "int option"

text \<open>
  How an iteration of \<^verbatim>\<open>while True\<close> ends: the loop goes on, or a \<^verbatim>\<open>break\<close> leaves it,
  after the clock was set (with the instant written to it), on the timeout, or in the
  repeated hour of MSF.
\<close>

datatype exit_kind = Synced int | TimedOut | RepeatedHour

datatype 'st outcome = Running 'st | Exited exit_kind 'st

text \<open>\<^verbatim>\<open>timeout = 15  # minutes\<close>\<close>

definition timeout :: int where
  "timeout = 15"

text \<open>
  The loop \<^verbatim>\<open>while True:\<close> of a script, over the sample arrays of the seconds it samples
  (between them it only polls the millisecond counter). The result after the last array
  is \<open>Running\<close> when the loop has not been left.
\<close>

fun run_loop ::
  "('st \<Rightarrow> 'i \<Rightarrow> error + 'st outcome) \<Rightarrow> 'st \<Rightarrow> 'i list \<Rightarrow> error + 'st outcome" where
  "run_loop step st [] = Inr (Running st)"
| "run_loop step st (x # xs) =
     (case step st x of
        Inl e \<Rightarrow> Inl e
      | Inr (Running st') \<Rightarrow> run_loop step st' xs
      | Inr (Exited k st') \<Rightarrow> Inr (Exited k st'))"

text \<open>
  The lines every field repeats:
  \<^verbatim>\<open>yrs = yrs[-4:] + [yr]\<close> and the test \<^verbatim>\<open>yrs.count(yr) == 3\<close>.
\<close>

definition observe :: "int list \<Rightarrow> int \<Rightarrow> int list" where
  "observe hist v = py_from hist (-4) @ [v]"

definition third_match :: "int list \<Rightarrow> int \<Rightarrow> bool" where
  "third_match hist v = (count_list hist v = 3)"

text \<open>Two binary coded decimal digits: \<^verbatim>\<open>int(hi,2)*10 + int(lo,2)\<close>.\<close>

definition bcd2 :: "string \<Rightarrow> string \<Rightarrow> error + int" where
  "bcd2 hi lo = err_bind (py_int hi 2) (\<lambda>a. err_bind (py_int lo 2) (\<lambda>b. Inr (a * 10 + b)))"

section \<open>DCF77\<close>

text \<open>
  \<^verbatim>\<open>A1, A2 = 22, 40\<close> and \<^verbatim>\<open>B1, B2 = 2, 20\<close>; the registers start as 45 and 6 blanks.
  With a plausible RTC (\<^verbatim>\<open>gmtime()[0] > 2021\<close>) the histories start with its date: the
  seed is the broken-down local time the script computes and its summer time flag.
\<close>

definition dcf_init :: "(int \<times> int \<times> int \<times> int \<times> int \<times> bool) option \<Rightarrow> dcf_state" where
  "dcf_init seed =
     (case seed of
        None \<Rightarrow>
          \<lparr>tcA = replicate 45 (CHR '' ''), tcB = replicate 6 (CHR '' ''), elapsed = 0,
           match = replicate 4 False, yrs = [], mods = [],
           year = None, yr = None, dy = None, hr = None, mn = None, modv = None,
           mons = [], dys = [], month = None, day = None, mon = None,
           dsts = [], dst = None, ds = None\<rparr>
      | Some (y, mo, d, h, mi, summer) \<Rightarrow>
          \<lparr>tcA = replicate 45 (CHR '' ''), tcB = replicate 6 (CHR '' ''), elapsed = 0,
           match = replicate 4 False, yrs = [y mod 100], mods = [(h + 1) * 60 + mi + 1],
           year = Some y, yr = None, dy = None, hr = None, mn = None, modv = None,
           mons = [mo], dys = [d], month = Some mo, day = Some d, mon = None,
           dsts = [if summer then 1 else 0], dst = None, ds = None\<rparr>)"

text \<open>
  \<^verbatim>\<open>if not match[0]:
      yr = int(tcA[2:6],2)*10 + int(tcA[6:10],2)
      if 23 < yr < 100:
          yrs = yrs[-4:] + [yr]
          if yrs.count(yr) == 3:
              year = 2000 + yr
              match[0] = True\<close>
\<close>

definition dcf_year :: "dcf_state \<Rightarrow> error + dcf_state" where
  "dcf_year st =
     err_bind (py_index (match st) 0) (\<lambda>m0.
       if \<not> m0 then
         err_bind (bcd2 (py_slice (tcA st) 2 6) (py_slice (tcA st) 6 10)) (\<lambda>v.
           let st = st\<lparr>yr := Some v\<rparr> in
           if 23 < v \<and> v < 100 then
             let st = st\<lparr>yrs := observe (yrs st) v\<rparr> in
             if third_match (yrs st) v then
               err_bind (set_item (match st) 0 True) (\<lambda>m.
                 Inr (st\<lparr>year := Some (2000 + v), match := m\<rparr>))
             else Inr st
           else Inr st)
       else Inr st)"

text \<open>
  \<^verbatim>\<open>if not match[1]:
      mon = int(tcA[10],2)*10 + int(tcA[11:15],2)
      if 0 < mon <= 12:
          mons = mons[-4:] + [mon]
          if mons.count(mon) == 3:
              month = mon
              match[1] = True\<close>
\<close>

definition dcf_month :: "dcf_state \<Rightarrow> error + dcf_state" where
  "dcf_month st =
     err_bind (py_index (match st) 1) (\<lambda>m1.
       if \<not> m1 then
         err_bind (py_index (tcA st) 10) (\<lambda>c.
         err_bind (bcd2 [c] (py_slice (tcA st) 11 15)) (\<lambda>v.
           let st = st\<lparr>mon := Some v\<rparr> in
           if 0 < v \<and> v \<le> 12 then
             let st = st\<lparr>mons := observe (mons st) v\<rparr> in
             if third_match (mons st) v then
               err_bind (set_item (match st) 1 True) (\<lambda>m.
                 Inr (st\<lparr>month := Some v, match := m\<rparr>))
             else Inr st
           else Inr st))
       else Inr st)"

text \<open>
  \<^verbatim>\<open>if not match[2]:
      dy = int(tcA[18:20],2)*10 + int(tcA[20:24],2)
      if 0 < dy <= 31:
          dys = dys[-4:] + [dy]
          if dys.count(dy) == 3:
              day = dy
              match[2] = True\<close>
\<close>

definition dcf_day :: "dcf_state \<Rightarrow> error + dcf_state" where
  "dcf_day st =
     err_bind (py_index (match st) 2) (\<lambda>m2.
       if \<not> m2 then
         err_bind (bcd2 (py_slice (tcA st) 18 20) (py_slice (tcA st) 20 24)) (\<lambda>v.
           let st = st\<lparr>dy := Some v\<rparr> in
           if 0 < v \<and> v \<le> 31 then
             let st = st\<lparr>dys := observe (dys st) v\<rparr> in
             if third_match (dys st) v then
               err_bind (set_item (match st) 2 True) (\<lambda>m.
                 Inr (st\<lparr>day := Some v, match := m\<rparr>))
             else Inr st
           else Inr st)
       else Inr st)"

text \<open>
  Year, month and day share a parity bit:
  \<^verbatim>\<open>if tcA[23]!=' ' and tcA[:24].count('1')%2==0:\<close>
\<close>

definition dcf_date :: "dcf_state \<Rightarrow> error + dcf_state" where
  "dcf_date st =
     err_bind (py_index (tcA st) 23) (\<lambda>c.
       if c \<noteq> CHR '' '' \<and> count_ones (py_slice (tcA st) 0 24) mod 2 = 0
       then err_bind (dcf_year st) (\<lambda>st. err_bind (dcf_month st) dcf_day)
       else Inr st)"

text \<open>
  \<^verbatim>\<open>if not match[3]:
      if tcA[42]!=' ' and tcA[41:43].count('1')%2==1:
          ds = int(tcA[42])
          dsts = dsts[-4:] + [ds]
          if dsts.count(ds) == 3:
              dst = ds
              match[3] = True\<close>
\<close>

definition dcf_dst :: "dcf_state \<Rightarrow> error + dcf_state" where
  "dcf_dst st =
     err_bind (py_index (match st) 3) (\<lambda>m3.
       if \<not> m3 then
         err_bind (py_index (tcA st) 42) (\<lambda>c.
           if c \<noteq> CHR '' '' \<and> count_ones (py_slice (tcA st) 41 43) mod 2 = 1 then
             err_bind (py_int [c] 10) (\<lambda>v.
               let st = st\<lparr>ds := Some v, dsts := observe (dsts st) v\<rparr> in
               if third_match (dsts st) v then
                 err_bind (set_item (match st) 3 True) (\<lambda>m.
                   Inr (st\<lparr>dst := Some v, match := m\<rparr>))
               else Inr st)
           else Inr st)
       else Inr st)"

text \<open>
  \<^verbatim>\<open>hr = int(tcA[25:27],2)*10 + int(tcA[27:31],2)
  mn = int(tcA[32:35],2)*10 + int(tcA[35:39],2)
  if hr < 24 and mn < 60:
      mod = hr*60 + mn
      mods = [x + elapsed//60 for x in mods]
      elapsed = 0
      mods = mods[-4:] + [mod]
      if mod <5:
          yrs = yrs[-1:]
          mons = mons[-1:]
          dys = dys[-1:]
          dsts = dsts[-1:]
          match = [False]*4\<close>
\<close>

definition dcf_minute :: "dcf_state \<Rightarrow> error + dcf_state" where
  "dcf_minute st =
     err_bind (bcd2 (py_slice (tcA st) 25 27) (py_slice (tcA st) 27 31)) (\<lambda>h.
     err_bind (bcd2 (py_slice (tcA st) 32 35) (py_slice (tcA st) 35 39)) (\<lambda>m.
       let st = st\<lparr>hr := Some h, mn := Some m\<rparr> in
       if h < 24 \<and> m < 60 then
         let v = h * 60 + m;
             st = st\<lparr>modv := Some v,
                     mods := py_from (map (\<lambda>x. x + elapsed st div 60) (mods st)) (-4) @ [v],
                     elapsed := 0\<rparr>
         in if v < 5
            then Inr (st\<lparr>yrs := py_from (yrs st) (-1), mons := py_from (mons st) (-1),
                         dys := py_from (dys st) (-1), dsts := py_from (dsts st) (-1),
                         match := replicate 4 False\<rparr>)
            else Inr st
       else Inr st))"

text \<open>
  \<^verbatim>\<open>if (min([len(yrs), len(mons), len(dys), len(dsts)])>1 and
      max(len(set(yrs)), len(set(mons)), len(set(dys)), len(set(dsts))) ==1):
          year, month, day, dst = 2000+yr, mon, dy, ds
          match = [True, True, True, True]\<close>
\<close>

definition dcf_confident_test :: "dcf_state \<Rightarrow> bool" where
  "dcf_confident_test st =
     (min (length (yrs st)) (min (length (mons st))
                                 (min (length (dys st)) (length (dsts st)))) > 1
      \<and> max (len_set (yrs st)) (max (len_set (mons st))
                                      (max (len_set (dys st)) (len_set (dsts st)))) = 1)"

definition dcf_confident :: "dcf_state \<Rightarrow> error + dcf_state" where
  "dcf_confident st =
     (if dcf_confident_test st then
        (case (yr st, mon st, dy st, ds st) of
           (Some a, Some b, Some c, Some d) \<Rightarrow>
             Inr (st\<lparr>year := Some (2000 + a), month := Some b, day := Some c, dst := Some d,
                     match := [True, True, True, True]\<rparr>)
         | _ \<Rightarrow> Inl NameError)
      else Inr st)"

text \<open>
  \<^verbatim>\<open>if all(match) and ((len(mods)>1 and len(set(mods))==1) or mods.count(mod)>=3):\<close>

  \<^verbatim>\<open>mod\<close> is read only when the tests before it leave the result open.
\<close>

definition minute_found :: "bool list \<Rightarrow> int list \<Rightarrow> int option \<Rightarrow> error + bool" where
  "minute_found m ms v =
     (if py_all m then
        if length ms > 1 \<and> len_set ms = 1 then Inr True
        else (case v of None \<Rightarrow> Inl NameError | Some x \<Rightarrow> Inr (count_list ms x \<ge> 3))
      else Inr False)"

text \<open>
  \<^verbatim>\<open>utc = gmtime(mktime((year, month, day, hr-1-dst, mn, 0, 0,0,0)))\<close>, written to the
  RTC, then \<^verbatim>\<open>rc_sync = True\<close> and \<^verbatim>\<open>break\<close>.
\<close>

definition dcf_set_clock :: "dcf_state \<Rightarrow> error + dcf_state outcome" where
  "dcf_set_clock st =
     err_bind (minute_found (match st) (mods st) (modv st)) (\<lambda>found.
       if found then
         (case (year st, month st, day st, hr st, dst st, mn st) of
            (Some y, Some mo, Some d, Some h, Some s, Some mi) \<Rightarrow>
              Inr (Exited (Synced (mktime y mo d (h - 1 - s) mi)) st)
          | _ \<Rightarrow> Inl NameError)
       else Inr (Running st))"

text \<open>
  Hour and minute, each with its parity bit:
  \<^verbatim>\<open>if tcA[38]!=' ' and tcA[24:31].count('1')%2==0 and tcA[31:39].count('1')%2==0:\<close>
\<close>

definition dcf_hm :: "dcf_state \<Rightarrow> error + dcf_state outcome" where
  "dcf_hm st =
     err_bind (py_index (tcA st) 38) (\<lambda>c.
       if c \<noteq> CHR '' '' \<and> count_ones (py_slice (tcA st) 24 31) mod 2 = 0
            \<and> count_ones (py_slice (tcA st) 31 39) mod 2 = 0
       then err_bind (dcf_minute st) (\<lambda>st. err_bind (dcf_confident st) dcf_set_clock)
       else Inr (Running st))"

text \<open>
  The block under \<^verbatim>\<open>if tcB.endswith('1110'):\<close>. The register is reversed for the
  decoding and reversed back after it, unless the loop was left.
\<close>

definition dcf_decode :: "dcf_state \<Rightarrow> error + dcf_state outcome" where
  "dcf_decode st =
     err_bind (dcf_date (st\<lparr>tcA := rev (tcA st)\<rparr>)) (\<lambda>st.
     err_bind (dcf_dst st) (\<lambda>st.
     err_bind (dcf_hm st) (\<lambda>r.
       case r of
         Running st \<Rightarrow> Inr (Running (st\<lparr>tcA := rev (tcA st)\<rparr>))
       | Exited k st \<Rightarrow> Inr (Exited k st))))"

text \<open>
  One sampled second, after the two windows were reduced to \<open>a\<close> and \<open>b\<close>: both
  registers shift, the counter advances, the marker is tested, and last
  \<^verbatim>\<open>if elapsed > timeout*60: break\<close>.
\<close>

definition dcf_tick :: "dcf_state \<Rightarrow> string \<Rightarrow> string \<Rightarrow> error + dcf_state outcome" where
  "dcf_tick st a b =
     (let st = st\<lparr>tcA := py_from (tcA st) 1 @ a, tcB := py_from (tcB st) 1 @ b,
                  elapsed := elapsed st + 1\<rparr>
      in err_bind (if endswith (tcB st) ''1110'' then dcf_decode st else Inr (Running st))
           (\<lambda>r. case r of
                   Running st \<Rightarrow>
                     if elapsed st > timeout * 60 then Inr (Exited TimedOut st)
                     else Inr (Running st)
                 | Exited k st \<Rightarrow> Inr (Exited k st)))"

text \<open>
  \<^verbatim>\<open>tcA = tcA[1:] + str(round(mean(samples[A1:A2])))
  tcB = tcB[1:] + str(round(mean(samples[B1:B2])))\<close>
\<close>

definition dcf_second :: "dcf_state \<Rightarrow> nat list \<Rightarrow> error + dcf_state outcome" where
  "dcf_second st samples =
     err_bind (classify samples 22 40) (\<lambda>a.
     err_bind (classify samples 2 20) (\<lambda>b. dcf_tick st a b))"

definition dcf_run :: "dcf_state \<Rightarrow> nat list list \<Rightarrow> error + dcf_state outcome" where
  "dcf_run = run_loop dcf_second"

section \<open>MSF\<close>

text \<open>
  \<^verbatim>\<open>A1, A2 = 27, 45\<close> and \<^verbatim>\<open>B1, B2 = 48, 66\<close>; the registers start as 45 and 8 blanks,
  and there are three match flags. The seed is \<^verbatim>\<open>gmtime(time())\<close> of a plausible RTC.
\<close>

definition msf_init :: "(int \<times> int \<times> int \<times> int \<times> int) option \<Rightarrow> date_state" where
  "msf_init seed =
     (case seed of
        None \<Rightarrow>
          \<lparr>tcA = replicate 45 (CHR '' ''), tcB = replicate 8 (CHR '' ''), elapsed = 0,
           match = replicate 3 False, yrs = [], mods = [],
           year = None, yr = None, dy = None, hr = None, mn = None, modv = None,
           mons = [], dys = [], month = None, day = None, mon = None\<rparr>
      | Some (y, mo, d, h, mi) \<Rightarrow>
          \<lparr>tcA = replicate 45 (CHR '' ''), tcB = replicate 8 (CHR '' ''), elapsed = 0,
           match = replicate 3 False, yrs = [y mod 100], mods = [h * 60 + mi + 1],
           year = Some y, yr = None, dy = None, hr = None, mn = None, modv = None,
           mons = [mo], dys = [d], month = Some mo, day = Some d, mon = None\<rparr>)"

text \<open>
  A parity test of MSF, \<^verbatim>\<open>(tcA[i:j].count('1') + int(tcB[k]))%2==1\<close>: the parity bit is
  read from the other register.
\<close>

definition msf_parity :: "string \<Rightarrow> string \<Rightarrow> int \<Rightarrow> error + bool" where
  "msf_parity slice b k =
     err_bind (py_index b k) (\<lambda>c.
     err_bind (py_int [c] 10) (\<lambda>p. Inr ((int (count_ones slice) + p) mod 2 = 1)))"

text \<open>
  \<^verbatim>\<open>if not match[0] and tcA[-43] != ' ' and (tcA[-43:-35].count('1') + int(tcB[-6]))%2==1:
      yr = int(tcA[-43:-39],2)*10 + int(tcA[-39:-35],2)
      if 23 < yr < 100:
          yrs = yrs[-4:] + [yr]
          if yrs.count(yr) == 3:
              year = 2000 + yr
              match[0] = True\<close>
\<close>

definition msf_year :: "date_state \<Rightarrow> error + date_state" where
  "msf_year st =
     err_bind (py_index (match st) 0) (\<lambda>m0.
       if \<not> m0 then
         err_bind (py_index (tcA st) (-43)) (\<lambda>c.
           if c \<noteq> CHR '' '' then
             err_bind (msf_parity (py_slice (tcA st) (-43) (-35)) (tcB st) (-6)) (\<lambda>odd_parity.
               if odd_parity then
                 err_bind (bcd2 (py_slice (tcA st) (-43) (-39)) (py_slice (tcA st) (-39) (-35)))
                   (\<lambda>v.
                     let st = st\<lparr>yr := Some v\<rparr> in
                     if 23 < v \<and> v < 100 then
                       let st = st\<lparr>yrs := observe (yrs st) v\<rparr> in
                       if third_match (yrs st) v then
                         err_bind (set_item (match st) 0 True) (\<lambda>m.
                           Inr (st\<lparr>year := Some (2000 + v), match := m\<rparr>))
                       else Inr st
                     else Inr st)
               else Inr st)
           else Inr st)
       else Inr st)"

text \<open>
  \<^verbatim>\<open>if not match[1]:
      mon = int(tcA[-35],2)*10 + int(tcA[-34:-30],2)
      if 0 < mon <= 12:
          mons = mons[-4:] + [mon]
          if mons.count(mon) == 3:
              month = mon
              match[1] = True\<close>
\<close>

definition msf_month :: "date_state \<Rightarrow> error + date_state" where
  "msf_month st =
     err_bind (py_index (match st) 1) (\<lambda>m1.
       if \<not> m1 then
         err_bind (py_index (tcA st) (-35)) (\<lambda>c.
         err_bind (bcd2 [c] (py_slice (tcA st) (-34) (-30))) (\<lambda>v.
           let st = st\<lparr>mon := Some v\<rparr> in
           if 0 < v \<and> v \<le> 12 then
             let st = st\<lparr>mons := observe (mons st) v\<rparr> in
             if third_match (mons st) v then
               err_bind (set_item (match st) 1 True) (\<lambda>m.
                 Inr (st\<lparr>month := Some v, match := m\<rparr>))
             else Inr st
           else Inr st))
       else Inr st)"

text \<open>
  \<^verbatim>\<open>if not match[2]:
      dy = int(tcA[-30:-28],2)*10 + int(tcA[-28:-24],2)
      if 0 < dy <= 31:
          dys = dys[-4:] + [dy]
          if dys.count(dy) == 3:
              day = dy
              match[2] = True\<close>
\<close>

definition msf_day :: "date_state \<Rightarrow> error + date_state" where
  "msf_day st =
     err_bind (py_index (match st) 2) (\<lambda>m2.
       if \<not> m2 then
         err_bind (bcd2 (py_slice (tcA st) (-30) (-28)) (py_slice (tcA st) (-28) (-24))) (\<lambda>v.
           let st = st\<lparr>dy := Some v\<rparr> in
           if 0 < v \<and> v \<le> 31 then
             let st = st\<lparr>dys := observe (dys st) v\<rparr> in
             if third_match (dys st) v then
               err_bind (set_item (match st) 2 True) (\<lambda>m.
                 Inr (st\<lparr>day := Some v, match := m\<rparr>))
             else Inr st
           else Inr st)
       else Inr st)"

text \<open>
  Month and day share a parity bit:
  \<^verbatim>\<open>if tcA[-35] != ' ' and (tcA[-35:-24].count('1') + int(tcB[-5]))%2==1:\<close>
\<close>

definition msf_date :: "date_state \<Rightarrow> error + date_state" where
  "msf_date st =
     err_bind (py_index (tcA st) (-35)) (\<lambda>c.
       if c \<noteq> CHR '' '' then
         err_bind (msf_parity (py_slice (tcA st) (-35) (-24)) (tcB st) (-5)) (\<lambda>odd_parity.
           if odd_parity then err_bind (msf_month st) msf_day else Inr st)
       else Inr st)"

text \<open>
  \<^verbatim>\<open>hr = int(tcA[-21:-19],2)*10 + int(tcA[-19:-15],2)
  mn = int(tcA[-15:-12],2)*10 + int(tcA[-12:-8],2)
  if hr < 24 and mn < 60:
      mod = hr*60 + mn
      mods = [x + elapsed//60 for x in mods]
      elapsed = 0
      mods = mods[-4:] + [mod]
      if mod <5:
          yrs = yrs[-1:]
          mons = mons[-1:]
          dys = dys[-1:]
          match = [False]*3\<close>
\<close>

definition msf_minute :: "date_state \<Rightarrow> error + date_state" where
  "msf_minute st =
     err_bind (bcd2 (py_slice (tcA st) (-21) (-19)) (py_slice (tcA st) (-19) (-15))) (\<lambda>h.
     err_bind (bcd2 (py_slice (tcA st) (-15) (-12)) (py_slice (tcA st) (-12) (-8))) (\<lambda>m.
       let st = st\<lparr>hr := Some h, mn := Some m\<rparr> in
       if h < 24 \<and> m < 60 then
         let v = h * 60 + m;
             st = st\<lparr>modv := Some v,
                     mods := py_from (map (\<lambda>x. x + elapsed st div 60) (mods st)) (-4) @ [v],
                     elapsed := 0\<rparr>
         in if v < 5
            then Inr (st\<lparr>yrs := py_from (yrs st) (-1), mons := py_from (mons st) (-1),
                         dys := py_from (dys st) (-1), match := replicate 3 False\<rparr>)
            else Inr st
       else Inr st))"

text \<open>
  \<^verbatim>\<open>if (min([len(yrs), len(mons), len(dys)]) > 1 and
      max(len(set(yrs)), len(set(mons)), len(set(dys))) == 1):
          year, month, day = 2000+yr, mon, dy
          match = [True, True, True]\<close>
\<close>

definition msf_confident_test :: "date_state \<Rightarrow> bool" where
  "msf_confident_test st =
     (min (length (yrs st)) (min (length (mons st)) (length (dys st))) > 1
      \<and> max (len_set (yrs st)) (max (len_set (mons st)) (len_set (dys st))) = 1)"

definition msf_confident :: "date_state \<Rightarrow> error + date_state" where
  "msf_confident st =
     (if msf_confident_test st then
        (case (yr st, mon st, dy st) of
           (Some a, Some b, Some c) \<Rightarrow>
             Inr (st\<lparr>year := Some (2000 + a), month := Some b, day := Some c,
                     match := [True, True, True]\<rparr>)
         | _ \<Rightarrow> Inl NameError)
      else Inr st)"

text \<open>
  The summer time of the United Kingdom, as the script computes it:
  \<^verbatim>\<open>fwd = mktime((year, 3, 31-(5*year//4+4)%7, 1, 0,0,0,0,0))
  back = mktime((year, 10, 31-(5*year//4+1)%7, 2, 0,0,0,0,0))\<close>
\<close>

definition msf_fwd :: "int \<Rightarrow> int" where
  "msf_fwd y = mktime y 3 (31 - (5 * y div 4 + 4) mod 7) 1 0"

definition msf_back :: "int \<Rightarrow> int" where
  "msf_back y = mktime y 10 (31 - (5 * y div 4 + 1) mod 7) 2 0"

text \<open>
  \<^verbatim>\<open>if all(match) and ((len(mods)>1 and len(set(mods))==1) or mods.count(mod)>=3):
      hour, minute = hr, mn
      RCtime = mktime((year, month, day, hour, minute, 0, 0,0,0))
      fwd = ...
      back = ...
      if back-7200 < RCtime < back: break
      utc = gmtime(RCtime - (3600 if fwd<=RCtime<back else 0))\<close>
  and then the RTC is set, \<^verbatim>\<open>rc_sync = True\<close> and \<^verbatim>\<open>break\<close>.
\<close>

definition msf_set_clock :: "date_state \<Rightarrow> error + date_state outcome" where
  "msf_set_clock st =
     err_bind (minute_found (match st) (mods st) (modv st)) (\<lambda>found.
       if found then
         (case (hr st, mn st, year st, month st, day st) of
            (Some h, Some mi, Some y, Some mo, Some d) \<Rightarrow>
              let rctime = mktime y mo d h mi; fwd = msf_fwd y; back = msf_back y
              in if back - 7200 < rctime \<and> rctime < back then Inr (Exited RepeatedHour st)
                 else Inr (Exited (Synced (rctime - (if fwd \<le> rctime \<and> rctime < back
                                                      then 3600 else 0))) st)
          | _ \<Rightarrow> Inl NameError)
       else Inr (Running st))"

text \<open>
  Hour and minute share a parity bit:
  \<^verbatim>\<open>if tcA[-21] != ' ' and (tcA[-21:-8].count('1') + int(tcB[-3]))%2==1:\<close>
\<close>

definition msf_hm :: "date_state \<Rightarrow> error + date_state outcome" where
  "msf_hm st =
     err_bind (py_index (tcA st) (-21)) (\<lambda>c.
       if c \<noteq> CHR '' '' then
         err_bind (msf_parity (py_slice (tcA st) (-21) (-8)) (tcB st) (-3)) (\<lambda>odd_parity.
           if odd_parity
           then err_bind (msf_minute st) (\<lambda>st. err_bind (msf_confident st) msf_set_clock)
           else Inr (Running st))
       else Inr (Running st))"

text \<open>The block under \<^verbatim>\<open>if tcA.endswith('01111110'):\<close>.\<close>

definition msf_decode :: "date_state \<Rightarrow> error + date_state outcome" where
  "msf_decode st = err_bind (msf_year st) (\<lambda>st. err_bind (msf_date st) msf_hm)"

definition msf_tick :: "date_state \<Rightarrow> string \<Rightarrow> string \<Rightarrow> error + date_state outcome" where
  "msf_tick st a b =
     (let st = st\<lparr>tcA := py_from (tcA st) 1 @ a, tcB := py_from (tcB st) 1 @ b,
                  elapsed := elapsed st + 1\<rparr>
      in err_bind (if endswith (tcA st) ''01111110'' then msf_decode st else Inr (Running st))
           (\<lambda>r. case r of
                   Running st \<Rightarrow>
                     if elapsed st > timeout * 60 then Inr (Exited TimedOut st)
                     else Inr (Running st)
                 | Exited k st \<Rightarrow> Inr (Exited k st)))"

definition msf_second :: "date_state \<Rightarrow> nat list \<Rightarrow> error + date_state outcome" where
  "msf_second st samples =
     err_bind (classify samples 27 45) (\<lambda>a.
     err_bind (classify samples 48 66) (\<lambda>b. msf_tick st a b))"

definition msf_run :: "date_state \<Rightarrow> nat list list \<Rightarrow> error + date_state outcome" where
  "msf_run = run_loop msf_second"

section \<open>JJY\<close>

text \<open>JJY decodes the year and the day of the year.\<close>

record jjy_state = rc_state +
  doys :: "int list"
  doy :: "int option"

text \<open>
  \<^verbatim>\<open>A1, A2 = 50, 80\<close> and \<^verbatim>\<open>B1, B2 = 20, 50\<close>; the registers start as 60 and 8 blanks,
  and there are two match flags. The seed is \<^verbatim>\<open>gmtime(time() +9*3600)\<close> of a plausible
  RTC: year, day of year, hour and minute.
\<close>

definition jjy_init :: "(int \<times> int \<times> int \<times> int) option \<Rightarrow> jjy_state" where
  "jjy_init seed =
     (case seed of
        None \<Rightarrow>
          \<lparr>tcA = replicate 60 (CHR '' ''), tcB = replicate 8 (CHR '' ''), elapsed = 0,
           match = replicate 2 False, yrs = [], mods = [],
           year = None, yr = None, dy = None, hr = None, mn = None, modv = None,
           doys = [], doy = None\<rparr>
      | Some (y, d, h, mi) \<Rightarrow>
          \<lparr>tcA = replicate 60 (CHR '' ''), tcB = replicate 8 (CHR '' ''), elapsed = 0,
           match = replicate 2 False, yrs = [y mod 100], mods = [h * 60 + mi],
           year = Some y, yr = None, dy = None, hr = None, mn = None, modv = None,
           doys = [d], doy = Some d\<rparr>)"

text \<open>
  \<^verbatim>\<open>if not match[0] and tcA[-20] != ' ':
      yr = int(tcA[-20:-16],2)*10 + int(tcA[-16:-12],2)
      if 23 < yr < 100:
          yrs = yrs[-4:] + [yr]
          if yrs.count(yr) == 3:
              year = 2000 + yr
              match[0] = True\<close>
\<close>

definition jjy_year :: "jjy_state \<Rightarrow> error + jjy_state" where
  "jjy_year st =
     err_bind (py_index (match st) 0) (\<lambda>m0.
       if \<not> m0 then
         err_bind (py_index (tcA st) (-20)) (\<lambda>c.
           if c \<noteq> CHR '' '' then
             err_bind (bcd2 (py_slice (tcA st) (-20) (-16)) (py_slice (tcA st) (-16) (-12)))
               (\<lambda>v.
                 let st = st\<lparr>yr := Some v\<rparr> in
                 if 23 < v \<and> v < 100 then
                   let st = st\<lparr>yrs := observe (yrs st) v\<rparr> in
                   if third_match (yrs st) v then
                     err_bind (set_item (match st) 0 True) (\<lambda>m.
                       Inr (st\<lparr>year := Some (2000 + v), match := m\<rparr>))
                   else Inr st
                 else Inr st)
           else Inr st)
       else Inr st)"

text \<open>
  \<^verbatim>\<open>if not match[1] and tcA[-39] != ' ':
      dy = int(tcA[-39:-37],2)*100 + int(tcA[-36:-32],2)*10 + int(tcA[-31:-27],2)
      if 0 < dy <= 366:
          doys = doys[-4:] + [dy]
          if doys.count(dy) == 3:
              doy = dy
              match[1] = True\<close>
\<close>

definition jjy_doy :: "jjy_state \<Rightarrow> error + jjy_state" where
  "jjy_doy st =
     err_bind (py_index (match st) 1) (\<lambda>m1.
       if \<not> m1 then
         err_bind (py_index (tcA st) (-39)) (\<lambda>c.
           if c \<noteq> CHR '' '' then
             err_bind (py_int (py_slice (tcA st) (-39) (-37)) 2) (\<lambda>h.
             err_bind (bcd2 (py_slice (tcA st) (-36) (-32)) (py_slice (tcA st) (-31) (-27)))
               (\<lambda>tu.
                 let v = h * 100 + tu; st = st\<lparr>dy := Some v\<rparr> in
                 if 0 < v \<and> v \<le> 366 then
                   let st = st\<lparr>doys := observe (doys st) v\<rparr> in
                   if third_match (doys st) v then
                     err_bind (set_item (match st) 1 True) (\<lambda>m.
                       Inr (st\<lparr>doy := Some v, match := m\<rparr>))
                   else Inr st
                 else Inr st))
           else Inr st)
       else Inr st)"

text \<open>
  \<^verbatim>\<open>hr = int(tcA[-49:-47],2)*10 + int(tcA[-46:-42],2)
  mn = int(tcA[-60:-57],2)*10 + int(tcA[-56:-52],2)
  if hr < 24 and mn < 60:
      mod = hr*60 + mn
      mods = [x + elapsed//60 for x in mods]
      elapsed = 0
      mods = mods[-4:] + [mod]
      if mod <5:
          yrs = yrs[-1:]
          doys = doys[-1:]
          match = [False]*2\<close>
\<close>

definition jjy_minute :: "jjy_state \<Rightarrow> error + jjy_state" where
  "jjy_minute st =
     err_bind (bcd2 (py_slice (tcA st) (-49) (-47)) (py_slice (tcA st) (-46) (-42))) (\<lambda>h.
     err_bind (bcd2 (py_slice (tcA st) (-60) (-57)) (py_slice (tcA st) (-56) (-52))) (\<lambda>m.
       let st = st\<lparr>hr := Some h, mn := Some m\<rparr> in
       if h < 24 \<and> m < 60 then
         let v = h * 60 + m;
             st = st\<lparr>modv := Some v,
                     mods := py_from (map (\<lambda>x. x + elapsed st div 60) (mods st)) (-4) @ [v],
                     elapsed := 0\<rparr>
         in if v < 5
            then Inr (st\<lparr>yrs := py_from (yrs st) (-1), doys := py_from (doys st) (-1),
                         match := replicate 2 False\<rparr>)
            else Inr st
       else Inr st))"

text \<open>
  \<^verbatim>\<open>if (min([len(yrs), len(doys)])>1 and
      max(len(set(yrs)), len(set(doys))) ==1):
          year, doy = 2000+yr, dy
          match = [True, True]\<close>
\<close>

definition jjy_confident_test :: "jjy_state \<Rightarrow> bool" where
  "jjy_confident_test st =
     (min (length (yrs st)) (length (doys st)) > 1
      \<and> max (len_set (yrs st)) (len_set (doys st)) = 1)"

definition jjy_confident :: "jjy_state \<Rightarrow> error + jjy_state" where
  "jjy_confident st =
     (if jjy_confident_test st then
        (case (yr st, dy st) of
           (Some a, Some b) \<Rightarrow>
             Inr (st\<lparr>year := Some (2000 + a), doy := Some b, match := [True, True]\<rparr>)
         | _ \<Rightarrow> Inl NameError)
      else Inr st)"

text \<open>
  \<^verbatim>\<open>if all(match) and ((len(mods)>1 and len(set(mods)) == 1) or mods.count(mod) >= 3):\<close>
  the day of the year is converted, and
  \<^verbatim>\<open>utc = gmtime(mktime((year, month, day, hour-9, minute+1, 0, 0,0,0)))\<close>
  is written to the RTC.
\<close>

definition jjy_set_clock :: "jjy_state \<Rightarrow> error + jjy_state outcome" where
  "jjy_set_clock st =
     err_bind (minute_found (match st) (mods st) (modv st)) (\<lambda>found.
       if found then
         (case (hr st, mn st, year st, doy st) of
            (Some h, Some mi, Some y, Some d) \<Rightarrow>
              err_bind (doy_to_date y d) (\<lambda>(mo, dd).
                Inr (Exited (Synced (mktime y (int mo) dd (h - 9) (mi + 1))) st))
          | _ \<Rightarrow> Inl NameError)
       else Inr (Running st))"

text \<open>
  Hour and minute, each with a parity bit further on in the frame:
  \<^verbatim>\<open>if (tcA[-60]!=' '
      and ((tcA[-49:-42] + tcA[-25]).count('1'))%2 == 0
      and ((tcA[-60:-52] + tcA[-24]).count('1'))%2 == 0):\<close>
\<close>

definition jjy_hm :: "jjy_state \<Rightarrow> error + jjy_state outcome" where
  "jjy_hm st =
     err_bind (py_index (tcA st) (-60)) (\<lambda>c.
       if c \<noteq> CHR '' '' then
         err_bind (py_index (tcA st) (-25)) (\<lambda>p1.
           if count_ones (py_slice (tcA st) (-49) (-42) @ [p1]) mod 2 = 0 then
             err_bind (py_index (tcA st) (-24)) (\<lambda>p2.
               if count_ones (py_slice (tcA st) (-60) (-52) @ [p2]) mod 2 = 0
               then err_bind (jjy_minute st) (\<lambda>st. err_bind (jjy_confident st) jjy_set_clock)
               else Inr (Running st))
           else Inr (Running st))
       else Inr (Running st))"

text \<open>The block under \<^verbatim>\<open>if tcB.endswith('0011'):\<close>.\<close>

definition jjy_decode :: "jjy_state \<Rightarrow> error + jjy_state outcome" where
  "jjy_decode st = err_bind (jjy_year st) (\<lambda>st. err_bind (jjy_doy st) jjy_hm)"

definition jjy_tick :: "jjy_state \<Rightarrow> string \<Rightarrow> string \<Rightarrow> error + jjy_state outcome" where
  "jjy_tick st a b =
     (let st = st\<lparr>tcA := py_from (tcA st) 1 @ a, tcB := py_from (tcB st) 1 @ b,
                  elapsed := elapsed st + 1\<rparr>
      in err_bind (if endswith (tcB st) ''0011'' then jjy_decode st else Inr (Running st))
           (\<lambda>r. case r of
                   Running st \<Rightarrow>
                     if elapsed st > timeout * 60 then Inr (Exited TimedOut st)
                     else Inr (Running st)
                 | Exited k st \<Rightarrow> Inr (Exited k st)))"

definition jjy_second :: "jjy_state \<Rightarrow> nat list \<Rightarrow> error + jjy_state outcome" where
  "jjy_second st samples =
     err_bind (classify samples 50 80) (\<lambda>a.
     err_bind (classify samples 20 50) (\<lambda>b. jjy_tick st a b))"

definition jjy_run :: "jjy_state \<Rightarrow> nat list list \<Rightarrow> error + jjy_state outcome" where
  "jjy_run = run_loop jjy_second"

section \<open>Reasoning about operations that may raise\<close>

text \<open>\<open>returns r P\<close>: if \<open>r\<close> is a value and not an exception, the value satisfies \<open>P\<close>.\<close>

definition returns :: "error + 'a \<Rightarrow> ('a \<Rightarrow> bool) \<Rightarrow> bool" where
  "returns r P = (case r of Inl e \<Rightarrow> True | Inr v \<Rightarrow> P v)"

lemma returns_Inr [simp]: "returns (Inr v) P = P v"
  by (simp add: returns_def)

lemma returns_Inl [simp]: "returns (Inl e) P = True"
  by (simp add: returns_def)

lemma returns_True [simp]: "returns r (\<lambda>v. True)"
  by (simp add: returns_def split: sum.split)


lemma returnsI: "(\<And>v. r = Inr v \<Longrightarrow> P v) \<Longrightarrow> returns r P"
  by (cases r) simp_all


lemma returns_mono: "returns r P \<Longrightarrow> (\<And>v. P v \<Longrightarrow> Q v) \<Longrightarrow> returns r Q"
  by (cases r) simp_all




section \<open>The blocks of the DCF77 decode cycle\<close>


















section \<open>The minute of day near midnight\<close>


lemma err_bind_return: "err_bind (Inr v) f = f v"
  by (simp add: err_bind_def)

















section \<open>Test signals\<close>

text \<open>
  Test signals. A second of DCF77 as the 45 samples the script takes of it (the first
  is its index slot): the carrier is reduced for 100 ms (a 0), for 200 ms (a 1), or not
  at all (second 59).
\<close>

definition no_pulse :: "nat list" where
  "no_pulse = replicate 45 0"

definition short_pulse :: "nat list" where
  "short_pulse = replicate 2 0 @ replicate 18 1 @ replicate 25 0"

definition long_pulse :: "nat list" where
  "long_pulse = replicate 2 0 @ replicate 38 1 @ replicate 5 0"

definition dcf_samples :: "char \<Rightarrow> nat list" where
  "dcf_samples c =
     (if c = CHR ''-'' then no_pulse else if c = CHR ''1'' then long_pulse else short_pulse)"

definition dcf_bits :: "dcf_state \<Rightarrow> char \<Rightarrow> error + dcf_state outcome" where
  "dcf_bits st c =
     (if c = CHR ''-'' then dcf_tick st ''0'' ''0''
      else if c = CHR ''1'' then dcf_tick st ''1'' ''1''
      else dcf_tick st ''0'' ''1'')"

lemma classify_pulses:
  "classify no_pulse 22 40 = Inr ''0''" "classify no_pulse 2 20 = Inr ''0''"
  "classify short_pulse 22 40 = Inr ''0''" "classify short_pulse 2 20 = Inr ''1''"
  "classify long_pulse 22 40 = Inr ''1''" "classify long_pulse 2 20 = Inr ''1''"
  by code_simp+

lemma dcf_second_samples: "dcf_second st (dcf_samples c) = dcf_bits st c"
  by (simp add: dcf_second_def dcf_samples_def dcf_bits_def classify_pulses err_bind_return)

lemma run_loop_map:
  "(\<And>st x. step st (f x) = step' st x) \<Longrightarrow>
     run_loop step st (map f xs) = run_loop step' st xs"
  by (induction xs arbitrary: st) (simp_all split: sum.split outcome.split)

lemma dcf_run_samples: "dcf_run st (map dcf_samples cs) = run_loop dcf_bits st cs"
  unfolding dcf_run_def by (rule run_loop_map) (rule dcf_second_samples)

text \<open>Frames of Sunday 10 March 2024 (winter time), for 11:41, 12:34 and 12:35.\<close>

definition frame_1141 :: string where
  "frame_1141 = ''00000000000000000010110000010100010000001011111000001001000-''"

definition frame_1234 :: string where
  "frame_1234 = ''00000000000000000010100101101010010000001011111000001001000-''"

definition frame_1235 :: string where
  "frame_1235 = ''00000000000000000010110101100010010000001011111000001001000-''"

section \<open>Accepting the minute of day\<close>

text \<open>
  The rule as the specification words it: the last two entries of the history agree, or
  the decoded value occurs at least three times in it.
\<close>

definition spec_minute_rule :: "int list \<Rightarrow> int \<Rightarrow> bool" where
  "spec_minute_rule ms v =
     ((2 \<le> length ms \<and> ms ! (length ms - 1) = ms ! (length ms - 2)) \<or> 3 \<le> count_list ms v)"

text \<open>
  The rule of the scripts: the history has at least two entries and they are all the
  same, or the decoded value occurs at least three times in it.
\<close>

definition all_agree_rule :: "int list \<Rightarrow> int \<Rightarrow> bool" where
  "all_agree_rule ms v =
     ((2 \<le> length ms \<and> list_all (\<lambda>x. x = hd ms) ms) \<or> 3 \<le> count_list ms v)"

lemma len_set_one: "(len_set ms = 1) = (ms \<noteq> [] \<and> list_all (\<lambda>x. x = hd ms) ms)"
proof
  assume "len_set ms = 1"
  then have c: "card (set ms) = 1" by (simp add: len_set_def length_remdups_card_conv)
  then obtain x where x: "set ms = {x}" by (auto simp: card_1_singleton_iff)
  then have "ms \<noteq> []" by auto
  moreover from this x have "hd ms = x" using hd_in_set[of ms] by auto
  ultimately show "ms \<noteq> [] \<and> list_all (\<lambda>x. x = hd ms) ms" using x by (auto simp: list_all_iff)
next
  assume a: "ms \<noteq> [] \<and> list_all (\<lambda>x. x = hd ms) ms"
  then have "set ms = {hd ms}" using hd_in_set[of ms] by (auto simp: list_all_iff)
  then show "len_set ms = 1" by (simp add: len_set_def length_remdups_card_conv)
qed

lemma minute_found_rule:
  "py_all m \<Longrightarrow> minute_found m ms (Some v) = Inr (all_agree_rule ms v)"
  using len_set_one[of ms] by (auto simp: minute_found_def all_agree_rule_def)


text \<open>
  Claim C2, as the scripts have it. With every field matched and the minute of day
  decoded, DCF77 and MSF leave the loop exactly when the history of the minute of day
  has at least two entries that are all equal, or the decoded value occurs at least
  three times in it (not already when its last two entries agree). DCF77 then sets the
  clock to the decoded time less one hour and the summer time flag. MSF then sets the
  clock to the decoded time, less an hour in summer time, unless
  \<^verbatim>\<open>back-7200 < RCtime < back\<close> (the two hours before 02:00 local time on the day summer
  time ends), where it leaves the loop without setting the clock.
\<close>
theorem minute_accepted_when_all_agree:
  assumes "py_all (match st)" "modv st = Some v"
    and "year st = Some y" "month st = Some mo" "day st = Some d"
    and "hr st = Some h" "mn st = Some mi"
  shows "(\<forall>s. dst st = Some s \<longrightarrow>
            dcf_set_clock st =
              Inr (if all_agree_rule (mods st) v
                   then Exited (Synced (mktime y mo d (h - 1 - s) mi)) st
                   else Running st))
       \<and> (py_all (match mt) \<and> modv mt = Some v \<and> year mt = Some y \<and> month mt = Some mo
            \<and> day mt = Some d \<and> hr mt = Some h \<and> mn mt = Some mi \<longrightarrow>
            msf_set_clock mt =
              Inr (if all_agree_rule (mods mt) v
                   then if msf_back y - 7200 < mktime y mo d h mi
                           \<and> mktime y mo d h mi < msf_back y
                        then Exited RepeatedHour mt
                        else Exited (Synced (mktime y mo d h mi
                               - (if msf_fwd y \<le> mktime y mo d h mi
                                     \<and> mktime y mo d h mi < msf_back y
                                  then 3600 else 0))) mt
                   else Running mt))"
proof (intro conjI allI impI)
  fix s assume "dst st = Some s"
  with assms show "dcf_set_clock st =
      Inr (if all_agree_rule (mods st) v
           then Exited (Synced (mktime y mo d (h - 1 - s) mi)) st else Running st)"
    by (simp add: dcf_set_clock_def minute_found_rule err_bind_return)
next
  assume "py_all (match mt) \<and> modv mt = Some v \<and> year mt = Some y \<and> month mt = Some mo
            \<and> day mt = Some d \<and> hr mt = Some h \<and> mn mt = Some mi"
  then show "msf_set_clock mt =
      Inr (if all_agree_rule (mods mt) v
           then if msf_back y - 7200 < mktime y mo d h mi \<and> mktime y mo d h mi < msf_back y
                then Exited RepeatedHour mt
                else Exited (Synced (mktime y mo d h mi
                       - (if msf_fwd y \<le> mktime y mo d h mi \<and> mktime y mo d h mi < msf_back y
                          then 3600 else 0))) mt
           else Running mt)"
    by (simp add: msf_set_clock_def minute_found_rule err_bind_return Let_def)
qed

text \<open>A state of each script with every field matched and the minute of day seen twice.\<close>

definition dcf_seen_twice :: dcf_state where
  "dcf_seen_twice =
     \<lparr>tcA = ''000010010000011111010000001001000110101101000'', tcB = ''111110'',
      elapsed = 0, match = [True, True, True, True], yrs = [24, 24], mods = [755, 755],
      year = Some 2024, yr = Some 24, dy = Some 10, hr = Some 12, mn = Some 35,
      modv = Some 755, mons = [3, 3], dys = [10, 10], month = Some 3, day = Some 10,
      mon = Some 3, dsts = [0, 0], dst = Some 0, ds = Some 0\<rparr>"

definition msf_seen_twice :: date_state where
  "msf_seen_twice =
     \<lparr>tcA = ''000000000000000000000000000000000000001111110'', tcB = ''00000000'',
      elapsed = 0, match = [True, True, True], yrs = [24, 24], mods = [755, 755],
      year = Some 2024, yr = Some 24, dy = Some 10, hr = Some 12, mn = Some 35,
      modv = Some 755, mons = [3, 3], dys = [10, 10], month = Some 3, day = Some 10,
      mon = Some 3\<rparr>"

theorem minute_accepted_when_all_agree_witness:
  "py_all (match dcf_seen_twice) \<and> modv dcf_seen_twice = Some 755
   \<and> year dcf_seen_twice = Some 2024 \<and> month dcf_seen_twice = Some 3
   \<and> day dcf_seen_twice = Some 10 \<and> hr dcf_seen_twice = Some 12
   \<and> mn dcf_seen_twice = Some 35 \<and> dst dcf_seen_twice = Some 0
   \<and> all_agree_rule (mods dcf_seen_twice) 755
   \<and> dcf_set_clock dcf_seen_twice = Inr (Exited (Synced 1710070500) dcf_seen_twice)
   \<and> py_all (match msf_seen_twice) \<and> modv msf_seen_twice = Some 755
   \<and> year msf_seen_twice = Some 2024 \<and> month msf_seen_twice = Some 3
   \<and> day msf_seen_twice = Some 10 \<and> hr msf_seen_twice = Some 12
   \<and> mn msf_seen_twice = Some 35
   \<and> all_agree_rule (mods msf_seen_twice) 755
   \<and> msf_set_clock msf_seen_twice = Inr (Exited (Synced 1710074100) msf_seen_twice)"
proof -
  have a: "py_all (match dcf_seen_twice)" "modv dcf_seen_twice = Some 755"
    "year dcf_seen_twice = Some 2024" "month dcf_seen_twice = Some 3"
    "day dcf_seen_twice = Some 10" "hr dcf_seen_twice = Some 12"
    "mn dcf_seen_twice = Some 35"
    by (simp_all add: dcf_seen_twice_def py_all_def)
  have b: "dst dcf_seen_twice = Some 0" by (simp add: dcf_seen_twice_def)
  have c: "py_all (match msf_seen_twice) \<and> modv msf_seen_twice = Some 755
      \<and> year msf_seen_twice = Some 2024 \<and> month msf_seen_twice = Some 3
      \<and> day msf_seen_twice = Some 10 \<and> hr msf_seen_twice = Some 12
      \<and> mn msf_seen_twice = Some 35"
    by (simp add: msf_seen_twice_def py_all_def)
  have r: "all_agree_rule (mods dcf_seen_twice) 755" "all_agree_rule (mods msf_seen_twice) 755"
    by (simp_all add: dcf_seen_twice_def msf_seen_twice_def all_agree_rule_def)
  have t: "mktime 2024 3 10 (12 - 1 - 0) 35 = 1710070500" by code_simp
  note w = minute_accepted_when_all_agree[OF a, of msf_seen_twice]
  from w b r(1) t have 1:
    "dcf_set_clock dcf_seen_twice = Inr (Exited (Synced 1710070500) dcf_seen_twice)"
    by simp
  have u: "mktime 2024 3 10 12 35 = 1710074100" "msf_back 2024 = 1729994400"
    "msf_fwd 2024 = 1711846800"
    by code_simp+
  from w c r(2) u have 2:
    "msf_set_clock msf_seen_twice = Inr (Exited (Synced 1710074100) msf_seen_twice)"
    by simp
  from a b c r 1 2 show ?thesis by simp
qed

text \<open>
  Claim C2, as the specification words it, fails. From a cold start DCF77 receives the
  frames of 11:41 and 12:34, after which every field is matched, and then the frame of
  12:35: the history of the minute of day is 703, 755, 755, its last two entries
  agree, and the clock is not set.
\<close>
theorem last_two_agree_not_accepted:
  "\<exists>s2 s3. dcf_run (dcf_init None) (map dcf_samples (frame_1141 @ frame_1234)) = Inr (Running s2)
      \<and> py_all (match s2)
      \<and> dcf_run s2 (map dcf_samples frame_1235) = Inr (Running s3)
      \<and> py_all (match s3) \<and> mods s3 = [703, 755, 755] \<and> modv s3 = Some 755
      \<and> spec_minute_rule (mods s3) 755
      \<and> dcf_set_clock s3 = Inr (Running s3)"
proof -
  let ?s2 = "\<lparr>tcA = ''000101001011010100100000010111110000010010000'', tcB = ''111110'',
      elapsed = 0, match = [True, True, True, True], yrs = [24, 24], mods = [702, 754],
      year = Some 2024, yr = Some 24, dy = Some 10, hr = Some 12, mn = Some 34,
      modv = Some 754, mons = [3, 3], dys = [10, 10], month = Some 3, day = Some 10,
      mon = Some 3, dsts = [0, 0], dst = Some 0, ds = Some 0\<rparr>"
  let ?s3 = "?s2\<lparr>tcA := ''000101101011000100100000010111110000010010000'',
      mods := [703, 755, 755], mn := Some 35, modv := Some 755\<rparr>"
  have 1: "run_loop dcf_bits (dcf_init None) (frame_1141 @ frame_1234) = Inr (Running ?s2)"
    by code_simp
  have 2: "run_loop dcf_bits ?s2 frame_1235 = Inr (Running ?s3)"
    by code_simp
  have 3: "py_all (match ?s2)" "py_all (match ?s3)" "mods ?s3 = [703, 755, 755]"
    "modv ?s3 = Some 755"
    by (simp_all add: py_all_def)
  have 4: "spec_minute_rule (mods ?s3) 755" by (simp add: spec_minute_rule_def)
  have 5: "dcf_set_clock ?s3 = Inr (Running ?s3)" by code_simp
  from 1 2 3 4 5 show ?thesis unfolding dcf_run_samples by blast
qed

text \<open>
  A second of MSF as the 70 samples the script takes of it (the first is its index
  slot), with bit A in samples 27 to 44 and bit B in samples 48 to 65.
\<close>

definition msf_pulse :: "bool \<Rightarrow> bool \<Rightarrow> nat list" where
  "msf_pulse a b =
     replicate 27 0 @ replicate 18 (if a then 1 else 0) @ replicate 3 0
       @ replicate 18 (if b then 1 else 0) @ replicate 4 0"

definition msf_samples :: "char \<times> char \<Rightarrow> nat list" where
  "msf_samples ab = msf_pulse (fst ab = CHR ''1'') (snd ab = CHR ''1'')"

definition msf_bits :: "date_state \<Rightarrow> char \<times> char \<Rightarrow> error + date_state outcome" where
  "msf_bits st ab =
     msf_tick st (if fst ab = CHR ''1'' then ''1'' else ''0'')
       (if snd ab = CHR ''1'' then ''1'' else ''0'')"

lemma classify_msf_pulse:
  "classify (msf_pulse a b) 27 45 = Inr (if a then ''1'' else ''0'')"
  "classify (msf_pulse a b) 48 66 = Inr (if b then ''1'' else ''0'')"
proof -
  have "classify (msf_pulse False False) 27 45 = Inr ''0''"
    "classify (msf_pulse False True) 27 45 = Inr ''0''"
    "classify (msf_pulse True False) 27 45 = Inr ''1''"
    "classify (msf_pulse True True) 27 45 = Inr ''1''"
    by code_simp+
  then show "classify (msf_pulse a b) 27 45 = Inr (if a then ''1'' else ''0'')"
    by (cases a; cases b; simp)
  have "classify (msf_pulse False False) 48 66 = Inr ''0''"
    "classify (msf_pulse False True) 48 66 = Inr ''1''"
    "classify (msf_pulse True False) 48 66 = Inr ''0''"
    "classify (msf_pulse True True) 48 66 = Inr ''1''"
    by code_simp+
  then show "classify (msf_pulse a b) 48 66 = Inr (if b then ''1'' else ''0'')"
    by (cases a; cases b; simp)
qed

lemma msf_second_samples: "msf_second st (msf_samples ab) = msf_bits st ab"
  by (simp add: msf_second_def msf_samples_def msf_bits_def classify_msf_pulse err_bind_return)

lemma msf_run_samples: "msf_run st (map msf_samples cs) = run_loop msf_bits st cs"
  unfolding msf_run_def by (rule run_loop_map) (rule msf_second_samples)

text \<open>Frames of Sunday 27 October 2024, 01:30 and 01:31 (bits A and bits B).\<close>

definition msf_frame_0130 :: "(char \<times> char) list" where
  "msf_frame_0130 =
     zip ''100000000000000000010010010000100111000000001011000001111110''
         ''100000000000000000000000000000000000000000000000000000101010''"

definition msf_frame_0131 :: "(char \<times> char) list" where
  "msf_frame_0131 =
     zip ''100000000000000000010010010000100111000000001011000101111110''
         ''100000000000000000000000000000000000000000000000000000101110''"

section \<open>The repeated hour of MSF\<close>

lemma run_loop_left:
  "run_loop step st xs = Inr (Exited k s) \<Longrightarrow> run_loop step st (xs @ ys) = Inr (Exited k s)"
  by (induction xs arbitrary: st) (auto split: sum.splits outcome.splits)

text \<open>The state MSF reaches from a cold start after the frames of 01:30 and 01:31.\<close>

definition msf_at_0131 :: date_state where
  "msf_at_0131 =
     \<lparr>tcA = ''000010010010000100111000000001011000101111110'', tcB = ''00101110'',
      elapsed = 0, match = [True, True, True], yrs = [24, 24], mods = [91, 91],
      year = Some 2024, yr = Some 24, dy = Some 27, hr = Some 1, mn = Some 31,
      modv = Some 91, mons = [10, 10], dys = [27, 27], month = Some 10, day = Some 27,
      mon = Some 10\<rparr>"

text \<open>
  Claim C4, as the script has it. When MSF accepts a decode whose time lies in the
  window \<^verbatim>\<open>back-7200 < RCtime < back\<close> (from 00:00 to 02:00 local time on the day summer
  time ends, which holds the repeated hour), it does not set the clock and it leaves the
  decode loop: whatever signal follows is not listened to.
\<close>
theorem repeated_hour_leaves_loop:
  assumes "py_all (match st)" "modv st = Some v" "all_agree_rule (mods st) v"
    and "year st = Some y" "month st = Some mo" "day st = Some d"
    and "hr st = Some h" "mn st = Some mi"
    and "msf_back y - 7200 < mktime y mo d h mi" "mktime y mo d h mi < msf_back y"
  shows "msf_set_clock st = Inr (Exited RepeatedHour st)
       \<and> (msf_run st0 xs = Inr (Exited RepeatedHour st) \<longrightarrow>
            msf_run st0 (xs @ ys) = Inr (Exited RepeatedHour st))"
proof
  from assms show "msf_set_clock st = Inr (Exited RepeatedHour st)"
    by (simp add: msf_set_clock_def minute_found_rule err_bind_return Let_def)
next
  show "msf_run st0 xs = Inr (Exited RepeatedHour st) \<longrightarrow>
          msf_run st0 (xs @ ys) = Inr (Exited RepeatedHour st)"
    unfolding msf_run_def using run_loop_left[of msf_second st0 xs RepeatedHour st ys] by blast
qed

lemma msf_run_0131:
  "run_loop msf_bits (msf_init None) (msf_frame_0130 @ msf_frame_0131)
     = Inr (Exited RepeatedHour msf_at_0131)"
  by code_simp

theorem repeated_hour_leaves_loop_witness:
  "py_all (match msf_at_0131) \<and> modv msf_at_0131 = Some 91
   \<and> all_agree_rule (mods msf_at_0131) 91
   \<and> year msf_at_0131 = Some 2024 \<and> month msf_at_0131 = Some 10
   \<and> day msf_at_0131 = Some 27 \<and> hr msf_at_0131 = Some 1 \<and> mn msf_at_0131 = Some 31
   \<and> msf_back 2024 - 7200 < mktime 2024 10 27 1 31
   \<and> mktime 2024 10 27 1 31 < msf_back 2024
   \<and> msf_run (msf_init None) (map msf_samples (msf_frame_0130 @ msf_frame_0131))
       = Inr (Exited RepeatedHour msf_at_0131)
   \<and> msf_set_clock msf_at_0131 = Inr (Exited RepeatedHour msf_at_0131)
   \<and> msf_run (msf_init None)
         (map msf_samples (msf_frame_0130 @ msf_frame_0131) @ map msf_samples msf_frame_0130)
       = Inr (Exited RepeatedHour msf_at_0131)"
proof -
  have a: "py_all (match msf_at_0131)" "modv msf_at_0131 = Some 91"
    "all_agree_rule (mods msf_at_0131) 91"
    "year msf_at_0131 = Some 2024" "month msf_at_0131 = Some 10"
    "day msf_at_0131 = Some 27" "hr msf_at_0131 = Some 1" "mn msf_at_0131 = Some 31"
    by (simp_all add: msf_at_0131_def py_all_def all_agree_rule_def)
  have t: "mktime 2024 10 27 1 31 = 1729992660" "msf_back 2024 = 1729994400"
    by code_simp+
  then have b: "msf_back 2024 - 7200 < mktime 2024 10 27 1 31"
    "mktime 2024 10 27 1 31 < msf_back 2024"
    by simp_all
  have r: "msf_run (msf_init None) (map msf_samples (msf_frame_0130 @ msf_frame_0131))
       = Inr (Exited RepeatedHour msf_at_0131)"
    unfolding msf_run_samples by (rule msf_run_0131)
  note w = repeated_hour_leaves_loop[OF a b, of "msf_init None"
      "map msf_samples (msf_frame_0130 @ msf_frame_0131)" "map msf_samples msf_frame_0130"]
  from w r a b show ?thesis by blast
qed

text \<open>
  Claim C4, as the specification words it, fails. From a cold start MSF receives the
  frames of 01:30 and 01:31 of Sunday 27 October 2024, the second is accepted, and the
  decode loop is left without the clock being set: it does not go on running.
\<close>
theorem repeated_hour_stops_listening:
  "\<exists>s. msf_run (msf_init None) (map msf_samples (msf_frame_0130 @ msf_frame_0131))
          = Inr (Exited RepeatedHour s)
      \<and> py_all (match s) \<and> mods s = [91, 91] \<and> modv s = Some 91
      \<and> year s = Some 2024 \<and> month s = Some 10 \<and> day s = Some 27
      \<and> hr s = Some 1 \<and> mn s = Some 31"
proof -
  have "msf_run (msf_init None) (map msf_samples (msf_frame_0130 @ msf_frame_0131))
       = Inr (Exited RepeatedHour msf_at_0131)"
    unfolding msf_run_samples by (rule msf_run_0131)
  moreover have "py_all (match msf_at_0131) \<and> mods msf_at_0131 = [91, 91]
      \<and> modv msf_at_0131 = Some 91
      \<and> year msf_at_0131 = Some 2024 \<and> month msf_at_0131 = Some 10
      \<and> day msf_at_0131 = Some 27 \<and> hr msf_at_0131 = Some 1 \<and> mn msf_at_0131 = Some 31"
    by (simp add: msf_at_0131_def py_all_def)
  ultimately show ?thesis by blast
qed

section \<open>The seconds counter and the timeout\<close>









































section \<open>When a match flag is set\<close>

























end
